theory Spec2Isabelle
  imports Complex_Main
begin

section \<open>The PAML branch-site parser: data model\<close>

text \<open>
  The development follows \<^verbatim>\<open>slimcodeml_parser.py\<close>. A \<^verbatim>\<open>PamlPair\<close> object is a record
  whose fields are the attributes that \<^verbatim>\<open>__init__\<close> and the two parse methods set.
  An attribute that Python initialises to \<^verbatim>\<open>None\<close>, or that exists only after a method
  has run (\<^verbatim>\<open>alignment\<close>, \<^verbatim>\<open>selected_aa\<close>, \<^verbatim>\<open>gene_length\<close>), is an option.
  A Python float is a finite real, an infinity or NaN; Python integers are \<open>int\<close>, a one-letter
  amino-acid string as a \<open>char\<close>, an \<^verbatim>\<open>OrderedDict\<close> as an association list in insertion
  order.
\<close>

datatype error =
    KeyError | IndexError | ValueError | TypeError | UnboundLocalError | AttributeError
  | StopIteration | OSError | SystemExit | ZeroDivisionError

text \<open>
  Python floats: the finite values, the two infinities and NaN, with the subtraction, the
  multiplication and the comparison \<^verbatim>\<open><\<close> of IEEE arithmetic on them (every comparison
  with NaN is false). Rounding, signed zeros and the overflow of a finite result are not
  modelled. \<open>in_unit\<close> is \<^verbatim>\<open>0 <= x <= 1\<close>.
\<close>

datatype pyfloat = Finite real | PosInf | NegInf | NaN

fun float_sub :: "pyfloat \<Rightarrow> pyfloat \<Rightarrow> pyfloat" where
  "float_sub NaN y = NaN"
| "float_sub x NaN = NaN"
| "float_sub (Finite a) (Finite b) = Finite (a - b)"
| "float_sub (Finite a) PosInf = NegInf"
| "float_sub (Finite a) NegInf = PosInf"
| "float_sub PosInf PosInf = NaN"
| "float_sub PosInf y = PosInf"
| "float_sub NegInf NegInf = NaN"
| "float_sub NegInf y = NegInf"

fun float_mul :: "pyfloat \<Rightarrow> pyfloat \<Rightarrow> pyfloat" where
  "float_mul NaN y = NaN"
| "float_mul x NaN = NaN"
| "float_mul (Finite a) (Finite b) = Finite (a * b)"
| "float_mul (Finite a) PosInf = (if a > 0 then PosInf else if a < 0 then NegInf else NaN)"
| "float_mul (Finite a) NegInf = (if a > 0 then NegInf else if a < 0 then PosInf else NaN)"
| "float_mul PosInf (Finite b) = (if b > 0 then PosInf else if b < 0 then NegInf else NaN)"
| "float_mul NegInf (Finite b) = (if b > 0 then NegInf else if b < 0 then PosInf else NaN)"
| "float_mul PosInf PosInf = PosInf"
| "float_mul PosInf NegInf = NegInf"
| "float_mul NegInf PosInf = NegInf"
| "float_mul NegInf NegInf = PosInf"

fun float_less :: "pyfloat \<Rightarrow> pyfloat \<Rightarrow> bool" where
  "float_less NaN y = False"
| "float_less x NaN = False"
| "float_less (Finite a) (Finite b) = (a < b)"
| "float_less (Finite a) PosInf = True"
| "float_less (Finite a) NegInf = False"
| "float_less PosInf y = False"
| "float_less NegInf NegInf = False"
| "float_less NegInf y = True"

definition in_unit :: "pyfloat \<Rightarrow> bool" where
  "in_unit x = (case x of Finite y \<Rightarrow> 0 \<le> y \<and> y \<le> 1 | PosInf \<Rightarrow> False | NegInf \<Rightarrow> False | NaN \<Rightarrow> False)"

type_synonym codon = string
type_synonym codon_columns = "(codon list \<times> codon list) list"
type_synonym alignment_map = "(string \<times> codon list) list"

datatype gene_len = LenStr string | LenInt int

record paml_pair =
  pvalue :: "pyfloat option"
  fdr_value :: "pyfloat option"
  alternative_lnL :: "pyfloat option"
  null_lnL :: "pyfloat option"
  status :: bool
  conserved_aa :: "int option"
  unique_aa :: "int option"
  diverse_aa :: "int option"
  all_clade_unique :: "int option"
  mostly_unique :: "int option"
  mostly_diverse :: "int option"
  mostly_conserved :: "int option"
  conserved_aa_list :: "codon_columns option"
  unique_aa_list :: "codon_columns option"
  diverse_aa_list :: "codon_columns option"
  mostly_conserved_aa_list :: "codon_columns option"
  most_common_aa :: "char list option"
  all_conserved :: "codon_columns option"
  all_mostly_conserved :: "codon_columns option"
  shared :: "int option"
  shared_aa_list :: "codon_columns option"
  variable :: "int option"
  variable_aa_list :: "codon_columns option"
  folder :: string
  alignment :: "alignment_map option"
  selected_aa :: "(string \<times> string) list option"
  gene_length :: "gene_len option"
  conserved_prop :: "(pyfloat \<times> pyfloat \<times> pyfloat) option"
  neutral_prop :: "(pyfloat \<times> pyfloat \<times> pyfloat) option"
  high_selection_prop :: "(pyfloat \<times> pyfloat \<times> pyfloat) option"
  selection_prop :: "(pyfloat \<times> pyfloat \<times> pyfloat) option"

text \<open>The attribute values right after the assignments of \<^verbatim>\<open>PamlPair.__init__\<close>, before
  the two parse calls.\<close>

definition init_pair :: "string \<Rightarrow> paml_pair" where
  "init_pair f =
     \<lparr> pvalue = None, fdr_value = None, alternative_lnL = None, null_lnL = None,
       status = True,
       conserved_aa = None, unique_aa = None, diverse_aa = None, all_clade_unique = None,
       mostly_unique = None, mostly_diverse = None, mostly_conserved = None,
       conserved_aa_list = None, unique_aa_list = None, diverse_aa_list = None,
       mostly_conserved_aa_list = None, most_common_aa = None,
       all_conserved = None, all_mostly_conserved = None,
       shared = None, shared_aa_list = None, variable = None, variable_aa_list = None,
       folder = f, alignment = None, selected_aa = None, gene_length = None,
       conserved_prop = None, neutral_prop = None, high_selection_prop = None,
       selection_prop = None \<rparr>"

section \<open>The likelihood-ratio test\<close>

text \<open>
  \<^verbatim>\<open>likelihood_ratio_test\<close>, lines 286-307. The chi-square distribution function of
  \<^verbatim>\<open>scipy.stats.chi2(1).cdf\<close> is the parameter \<open>chi2_cdf\<close>.
\<close>

definition likelihood_ratio_test :: "(pyfloat \<Rightarrow> pyfloat) \<Rightarrow> paml_pair \<Rightarrow> paml_pair" where
  "likelihood_ratio_test chi2_cdf p =
     (case alternative_lnL p of
        None \<Rightarrow> p\<lparr>pvalue := Some (Finite 1)\<rparr>
      | Some a \<Rightarrow>
          (case null_lnL p of
             None \<Rightarrow> p\<lparr>pvalue := Some (Finite 1)\<rparr>
           | Some n \<Rightarrow>
               (let lrt = float_mul (Finite 2) (float_sub a n)
                in if float_less lrt (Finite 0) then p\<lparr>pvalue := Some (Finite 1)\<rparr>
                   else p\<lparr>pvalue := Some (float_sub (Finite 1) (chi2_cdf lrt))\<rparr>)))"

section \<open>Python values and errors\<close>

text \<open>
  A Python expression that can raise is a value of type \<open>error + 'a\<close>; \<open>and_then\<close>
  sequences two of them and stops at the first exception.
\<close>

fun and_then :: "error + 'a \<Rightarrow> ('a \<Rightarrow> error + 'b) \<Rightarrow> error + 'b" where
  "and_then (Inl e) f = Inl e"
| "and_then (Inr x) f = f x"

text \<open>A list comprehension \<^verbatim>\<open>[f(x) for x in xs if c(x)]\<close>: the condition, then the element,
  item by item.\<close>

fun comprehension :: "('a \<Rightarrow> error + bool) \<Rightarrow> ('a \<Rightarrow> error + 'b) \<Rightarrow> 'a list \<Rightarrow> error + 'b list" where
  "comprehension c f [] = Inr []"
| "comprehension c f (x # xs) =
     and_then (c x) (\<lambda>b.
       if b then and_then (f x) (\<lambda>y. and_then (comprehension c f xs) (\<lambda>ys. Inr (y # ys)))
       else comprehension c f xs)"

text \<open>A \<^verbatim>\<open>for\<close> loop over a list whose body updates a state and can raise.\<close>

fun for_each :: "('s \<Rightarrow> 'a \<Rightarrow> error + 's) \<Rightarrow> 'a list \<Rightarrow> 's \<Rightarrow> error + 's" where
  "for_each body [] s = Inr s"
| "for_each body (x # xs) s = and_then (body s x) (for_each body xs)"

text \<open>Python indexing \<^verbatim>\<open>xs[i]\<close>: a negative index counts from the end.\<close>

definition py_index :: "'a list \<Rightarrow> int \<Rightarrow> error + 'a" where
  "py_index xs i =
     (if 0 \<le> i \<and> i < int (length xs) then Inr (xs ! nat i)
      else if i < 0 \<and> - int (length xs) \<le> i then Inr (xs ! nat (int (length xs) + i))
      else Inl IndexError)"

text \<open>\<^verbatim>\<open>str.isspace\<close> on the code points below 256, and the decimal digits.\<close>

definition is_space :: "char \<Rightarrow> bool" where
  "is_space c = (of_char c \<in> {9, 10, 11, 12, 13, 28, 29, 30, 31, 32, 133, 160 :: nat})"

definition is_decimal :: "char \<Rightarrow> bool" where
  "is_decimal c = (48 \<le> (of_char c :: nat) \<and> (of_char c :: nat) \<le> 57)"

definition strip :: "string \<Rightarrow> string" where
  "strip s = rev (dropWhile is_space (rev (dropWhile is_space s)))"

text \<open>\<^verbatim>\<open>int(s)\<close> in base ten: surrounding whitespace, an optional sign, then decimal
  digits, where single underscores may stand between digits.\<close>

fun well_grouped :: "string \<Rightarrow> bool" where
  "well_grouped [] = False"
| "well_grouped [c] = is_decimal c"
| "well_grouped (c # d # cs) =
     (is_decimal c \<and> (if d = CHR ''_'' then well_grouped cs else well_grouped (d # cs)))"

definition digits_value :: "string \<Rightarrow> nat" where
  "digits_value ds = fold (\<lambda>c n. 10 * n + (of_char c - 48)) (filter is_decimal ds) 0"

definition py_int :: "string \<Rightarrow> error + int" where
  "py_int s =
     (case strip s of
        [] \<Rightarrow> Inl ValueError
      | c # r \<Rightarrow>
          (let ds = (if c = CHR ''-'' \<or> c = CHR ''+'' then r else c # r)
           in if well_grouped ds
              then Inr ((if c = CHR ''-'' then - 1 else 1) * int (digits_value ds))
              else Inl ValueError))"

section \<open>The codon table and alignment columns\<close>

definition codon_table :: "(codon \<times> char) list" where
  "codon_table =
    [(''ATA'', CHR ''I''), (''ATC'', CHR ''I''), (''ATT'', CHR ''I''), (''ATG'', CHR ''M''),
     (''ACA'', CHR ''T''), (''ACC'', CHR ''T''), (''ACG'', CHR ''T''), (''ACT'', CHR ''T''),
     (''AAC'', CHR ''N''), (''AAT'', CHR ''N''), (''AAA'', CHR ''K''), (''AAG'', CHR ''K''),
     (''AGC'', CHR ''S''), (''AGT'', CHR ''S''), (''AGA'', CHR ''R''), (''AGG'', CHR ''R''),
     (''CTA'', CHR ''L''), (''CTC'', CHR ''L''), (''CTG'', CHR ''L''), (''CTT'', CHR ''L''),
     (''CCA'', CHR ''P''), (''CCC'', CHR ''P''), (''CCG'', CHR ''P''), (''CCT'', CHR ''P''),
     (''CAC'', CHR ''H''), (''CAT'', CHR ''H''), (''CAA'', CHR ''Q''), (''CAG'', CHR ''Q''),
     (''CGA'', CHR ''R''), (''CGC'', CHR ''R''), (''CGG'', CHR ''R''), (''CGT'', CHR ''R''),
     (''GTA'', CHR ''V''), (''GTC'', CHR ''V''), (''GTG'', CHR ''V''), (''GTT'', CHR ''V''),
     (''GCA'', CHR ''A''), (''GCC'', CHR ''A''), (''GCG'', CHR ''A''), (''GCT'', CHR ''A''),
     (''GAC'', CHR ''D''), (''GAT'', CHR ''D''), (''GAA'', CHR ''E''), (''GAG'', CHR ''E''),
     (''GGA'', CHR ''G''), (''GGC'', CHR ''G''), (''GGG'', CHR ''G''), (''GGT'', CHR ''G''),
     (''TCA'', CHR ''S''), (''TCC'', CHR ''S''), (''TCG'', CHR ''S''), (''TCT'', CHR ''S''),
     (''TTC'', CHR ''F''), (''TTT'', CHR ''F''), (''TTA'', CHR ''L''), (''TTG'', CHR ''L''),
     (''TAC'', CHR ''Y''), (''TAT'', CHR ''Y''), (''TAA'', CHR ''_''), (''TAG'', CHR ''_''),
     (''TGC'', CHR ''C''), (''TGT'', CHR ''C''), (''TGA'', CHR ''_''), (''TGG'', CHR ''W'')]"

text \<open>\<^verbatim>\<open>codon_table[char[i]]\<close>: the index first (IndexError), then the table (KeyError).\<close>

definition translate :: "codon \<Rightarrow> error + char" where
  "translate c = (case map_of codon_table c of None \<Rightarrow> Inl KeyError | Some a \<Rightarrow> Inr a)"

definition aa_at :: "int \<Rightarrow> codon list \<Rightarrow> error + char" where
  "aa_at i char = and_then (py_index char i) translate"

text \<open>\<^verbatim>\<open>sp in clade\<close> and \<^verbatim>\<open>sp not in clade\<close>. The clade is a list of names or
  \<^verbatim>\<open>None\<close>; membership in \<^verbatim>\<open>None\<close> raises TypeError.\<close>

fun member_of :: "string list option \<Rightarrow> string \<Rightarrow> error + bool" where
  "member_of None sp = Inl TypeError"
| "member_of (Some c) sp = Inr (sp \<in> set c)"

definition not_member_of :: "string list option \<Rightarrow> string \<Rightarrow> error + bool" where
  "not_member_of clade sp = and_then (member_of clade sp) (\<lambda>b. Inr (\<not> b))"

text \<open>The comprehensions over \<^verbatim>\<open>alignment.items()\<close> and \<^verbatim>\<open>alignment.values()\<close> that the
  classifier repeats.\<close>

definition aa_column_at :: "alignment_map \<Rightarrow> int \<Rightarrow> error + char list" where
  "aa_column_at items i = comprehension (\<lambda>_. Inr True) (\<lambda>(sp, char). aa_at i char) items"

definition clade_aa_at :: "alignment_map \<Rightarrow> string list option \<Rightarrow> int \<Rightarrow> error + char list" where
  "clade_aa_at items clade i =
     comprehension (\<lambda>(sp, char). member_of clade sp) (\<lambda>(sp, char). aa_at i char) items"

definition other_aa_at :: "alignment_map \<Rightarrow> string list option \<Rightarrow> int \<Rightarrow> error + char list" where
  "other_aa_at items clade i =
     comprehension (\<lambda>(sp, char). not_member_of clade sp) (\<lambda>(sp, char). aa_at i char) items"

definition clade_codons_at :: "alignment_map \<Rightarrow> string list option \<Rightarrow> int \<Rightarrow> error + codon list" where
  "clade_codons_at items clade i =
     comprehension (\<lambda>(sp, char). member_of clade sp) (\<lambda>(sp, char). py_index char i) items"

definition other_codons_at :: "alignment_map \<Rightarrow> string list option \<Rightarrow> int \<Rightarrow> error + codon list" where
  "other_codons_at items clade i =
     comprehension (\<lambda>(sp, char). not_member_of clade sp) (\<lambda>(sp, char). py_index char i) items"

definition codon_pair_at ::
  "alignment_map \<Rightarrow> string list option \<Rightarrow> int \<Rightarrow> error + (codon list \<times> codon list)" where
  "codon_pair_at items clade i =
     and_then (clade_codons_at items clade i) (\<lambda>clade_codon_list.
     and_then (other_codons_at items clade i) (\<lambda>other_codon_list.
     Inr (clade_codon_list, other_codon_list)))"

text \<open>
  The most common amino acids of a column, lines 422-423 and 350-351. Python iterates over
  \<^verbatim>\<open>set(column)\<close> in an order that depends on the hash seed; the model takes the order of
  \<open>remdups\<close>. Every member of the result has the same (maximal) count in the column, and
  the code reads only membership and the count of the first member.
\<close>

definition most_common :: "char list \<Rightarrow> char list" where
  "most_common column =
     filter (\<lambda>x. list_all (\<lambda>y. count_list column y \<le> count_list column x) (remdups column))
       (remdups column)"


section \<open>The site classifier\<close>

text \<open>
  \<^verbatim>\<open>self.x += 1\<close> on a counter attribute (TypeError while it is still \<^verbatim>\<open>None\<close>) and
  \<^verbatim>\<open>self.xs.append(v)\<close> on a list attribute (AttributeError while it is \<^verbatim>\<open>None\<close>). The
  attribute is given by its selector and its update function.
\<close>

definition increment ::
  "(paml_pair \<Rightarrow> int option) \<Rightarrow> ((int option \<Rightarrow> int option) \<Rightarrow> paml_pair \<Rightarrow> paml_pair) \<Rightarrow>
   paml_pair \<Rightarrow> error + paml_pair" where
  "increment attr attr_update self =
     (case attr self of
        None \<Rightarrow> Inl TypeError
      | Some n \<Rightarrow> Inr (attr_update (\<lambda>_. Some (n + 1)) self))"

definition append_to ::
  "(paml_pair \<Rightarrow> codon_columns option) \<Rightarrow>
   ((codon_columns option \<Rightarrow> codon_columns option) \<Rightarrow> paml_pair \<Rightarrow> paml_pair) \<Rightarrow>
   codon list \<times> codon list \<Rightarrow> paml_pair \<Rightarrow> error + paml_pair" where
  "append_to attr attr_update v self =
     (case attr self of
        None \<Rightarrow> Inl AttributeError
      | Some xs \<Rightarrow> Inr (attr_update (\<lambda>_. Some (xs @ [v])) self))"

text \<open>The three lines that build \<^verbatim>\<open>clade_codon_list\<close> and \<^verbatim>\<open>other_codon_list\<close> for a
  column and append the pair to a detail list (lines 430-432, 471-473, 480-482).\<close>

definition record_columns ::
  "(paml_pair \<Rightarrow> codon_columns option) \<Rightarrow>
   ((codon_columns option \<Rightarrow> codon_columns option) \<Rightarrow> paml_pair \<Rightarrow> paml_pair) \<Rightarrow>
   alignment_map \<Rightarrow> string list option \<Rightarrow> int \<Rightarrow> paml_pair \<Rightarrow> error + paml_pair" where
  "record_columns attr attr_update items clade position self =
     and_then (codon_pair_at items clade position) (\<lambda>v. append_to attr attr_update v self)"

text \<open>
  \<^verbatim>\<open>x is not []\<close> compares the identity of \<^verbatim>\<open>x\<close> with a list object built for the
  comparison, so it is true of every value \<^verbatim>\<open>x\<close> (lines 402 and 450).
\<close>

definition is_not_new_list :: "'a \<Rightarrow> bool" where
  "is_not_new_list x = True"

text \<open>
  Lines 464-486, the part of the loop body after the clade block. The local variable
  \<^verbatim>\<open>clade_specific_aa\<close> is bound only when the clade block ran in this iteration
  (\<open>None\<close> here: reading it raises UnboundLocalError). The frequency is a float quotient
  of two counts compared with 0.50; the model compares the exact quotient, which agrees
  with the float comparison for alignments of fewer than \<open>2^52\<close> taxa.
\<close>

definition frequency_classes ::
  "string list option \<Rightarrow> bool \<Rightarrow> alignment_map \<Rightarrow> int \<Rightarrow> char list \<Rightarrow> char list \<Rightarrow>
   char list option \<Rightarrow> paml_pair \<Rightarrow> error + paml_pair" where
  "frequency_classes clade set_aa_columns items position aa_column mc clade_specific_aa self =
     (case mc of
        [] \<Rightarrow> Inr self
      | m # _ \<Rightarrow>
          (let frequency_most_common_aa = real (count_list aa_column m) / real (length aa_column)
           in if frequency_most_common_aa \<ge> 1 / 2 then
                (case clade_specific_aa of
                   None \<Rightarrow> Inl UnboundLocalError
                 | Some csa \<Rightarrow>
                     if length (remdups csa) = 1 \<and> hd csa \<in> set mc then
                       and_then (increment mostly_conserved mostly_conserved_update self) (\<lambda>self.
                         if set_aa_columns
                         then record_columns mostly_conserved_aa_list mostly_conserved_aa_list_update
                                items clade position self
                         else Inr self)
                     else if length (remdups csa) = 2 \<and> list_ex (\<lambda>x. x \<in> set csa) mc then
                       and_then (increment shared shared_update self) (\<lambda>self.
                         if set_aa_columns
                         then record_columns shared_aa_list shared_aa_list_update
                                items clade position self
                         else Inr self)
                     else increment variable variable_update self)
              else increment variable variable_update self))"

text \<open>Lines 436-456, the clade block, falling through to \<open>frequency_classes\<close> where the
  Python does not \<^verbatim>\<open>continue\<close>.\<close>

definition clade_classes ::
  "string list option \<Rightarrow> bool \<Rightarrow> alignment_map \<Rightarrow> int \<Rightarrow> char list \<Rightarrow> char list \<Rightarrow>
   paml_pair \<Rightarrow> error + paml_pair" where
  "clade_classes clade set_aa_columns items position aa_column mc self =
     (if clade \<noteq> None then
        and_then (clade_aa_at items clade position) (\<lambda>clade_specific_aa.
        and_then (other_aa_at items clade position) (\<lambda>other_aa.
          if length (remdups clade_specific_aa) = 1 \<and> hd clade_specific_aa \<notin> set other_aa then
            increment unique_aa unique_aa_update self
          else if filter (\<lambda>x. x \<in> set other_aa) clade_specific_aa = [] then
            increment diverse_aa diverse_aa_update self
          else if is_not_new_list mc \<and>
                  filter (\<lambda>x. count_list clade_specific_aa x > count_list other_aa x)
                    clade_specific_aa \<noteq> [] then
            (if length (remdups clade_specific_aa) = 1 \<and> hd clade_specific_aa \<notin> set mc then
               increment mostly_unique mostly_unique_update self
             else if filter (\<lambda>x. x \<in> set mc) clade_specific_aa = [] then
               increment mostly_diverse mostly_diverse_update self
             else frequency_classes clade set_aa_columns items position aa_column mc
                    (Some clade_specific_aa) self)
          else frequency_classes clade set_aa_columns items position aa_column mc
                 (Some clade_specific_aa) self))
      else frequency_classes clade set_aa_columns items position aa_column mc None self)"

text \<open>Lines 419-486, the body of the loop over \<^verbatim>\<open>self.selected_aa\<close>.\<close>

definition classify_site ::
  "string list option \<Rightarrow> bool \<Rightarrow> paml_pair \<Rightarrow> string \<times> string \<Rightarrow> error + paml_pair" where
  "classify_site clade set_aa_columns self aminoacid =
     and_then (py_int (fst aminoacid)) (\<lambda>n.
     let position = n - 1 in
     (case alignment self of
        None \<Rightarrow> Inl AttributeError
      | Some items \<Rightarrow>
          and_then (aa_column_at items position) (\<lambda>aa_column.
          let unique_aa_colum = remdups aa_column;
              mc = most_common aa_column;
              self = self\<lparr>most_common_aa := Some mc\<rparr>
          in if length unique_aa_colum = 1 then
               and_then (increment conserved_aa conserved_aa_update self) (\<lambda>self.
                 if set_aa_columns \<and> clade \<noteq> None
                 then record_columns conserved_aa_list conserved_aa_list_update
                        items clade position self
                 else Inr self)
             else clade_classes clade set_aa_columns items position aa_column mc self)))"

text \<open>\<^verbatim>\<open>detect_unique_aa\<close>, lines 319-334.\<close>

definition unique_column_step ::
  "alignment_map \<Rightarrow> string list option \<Rightarrow> int \<Rightarrow> nat \<Rightarrow> error + int" where
  "unique_column_step items taxa_list aa_count i =
     and_then (clade_aa_at items taxa_list (int i)) (\<lambda>taxa_specific_aa.
     and_then (other_aa_at items taxa_list (int i)) (\<lambda>other_taxa_aa.
       if length (remdups taxa_specific_aa) = 1 \<and> hd taxa_specific_aa \<notin> set other_taxa_aa
       then Inr (aa_count + 1) else Inr aa_count))"

definition detect_unique_aa :: "alignment_map \<Rightarrow> string list option \<Rightarrow> error + int" where
  "detect_unique_aa items taxa_list =
     (if length items > 0 \<and> length (snd (hd items)) > 0
      then for_each (unique_column_step items taxa_list) [0 ..< length (snd (hd items))] 0
      else Inr 0)"

text \<open>
  \<^verbatim>\<open>detect_conserved_aa\<close>, lines 336-368; \<^verbatim>\<open>selected_positions\<close> is the variable of the
  enclosing \<^verbatim>\<open>filter_aa\<close>. The float comparison \<^verbatim>\<open>most_common_aa_frequency > 0.70\<close> is
  modelled by the exact quotient and \<open>7 / 10\<close>: the double nearest to 0.70 is also the
  double that the quotient of two counts in proportion 7 to 10 rounds to, and every other
  quotient of counts (of fewer than \<open>2^49\<close> taxa) lies on the same side of both.
\<close>

definition conserved_column_step ::
  "alignment_map \<Rightarrow> string list option \<Rightarrow> int list \<Rightarrow> codon_columns \<times> codon_columns \<Rightarrow> nat \<Rightarrow>
   error + (codon_columns \<times> codon_columns)" where
  "conserved_column_step items taxa_list selected_positions acc i =
     (if int i \<notin> set selected_positions then
        and_then (aa_column_at items (int i)) (\<lambda>column.
        let mc = most_common column in
        and_then (py_index mc 0) (\<lambda>m.
        let most_common_aa_frequency = real (count_list column m) / real (length column) in
        and_then
          (if length (remdups column) = 1
           then and_then (codon_pair_at items taxa_list (int i)) (\<lambda>v. Inr (fst acc @ [v]))
           else Inr (fst acc)) (\<lambda>all_conserved.
        and_then
          (if most_common_aa_frequency > 7 / 10
           then and_then (codon_pair_at items taxa_list (int i)) (\<lambda>v. Inr (snd acc @ [v]))
           else Inr (snd acc)) (\<lambda>all_mostly_conserved.
        Inr (all_conserved, all_mostly_conserved)))))
      else Inr acc)"

definition detect_conserved_aa ::
  "alignment_map \<Rightarrow> string list option \<Rightarrow> int list \<Rightarrow> error + (codon_columns \<times> codon_columns)" where
  "detect_conserved_aa items taxa_list selected_positions =
     (if length items > 0 \<and> length (snd (hd items)) > 0
      then for_each (conserved_column_step items taxa_list selected_positions)
             [0 ..< length (snd (hd items))] ([], [])
      else Inr ([], []))"

text \<open>The preset clades and the loop that resolves one, lines 371-379.\<close>

definition preset_dic :: "(string \<times> string list) list" where
  "preset_dic =
     [(''pucciniales_genome'',
         [''Puccinia_triticina'', ''Melampsora_laricis_populina'', ''Puccinia_graminis'']),
      (''pucciniales'',
         [''Puccinia_triticina'', ''Melampsora_laricis_populina'', ''Puccinia_graminis'',
          ''Hemileia_vastatrix''])]"

definition resolve_preset ::
  "paml_pair \<Rightarrow> string list option \<Rightarrow> string \<times> string list \<Rightarrow> error + string list option" where
  "resolve_preset self clade preset =
     (if Some [fst preset] = clade then
        (case alignment self of
           None \<Rightarrow> Inl AttributeError
         | Some items \<Rightarrow> Inr (Some (filter (\<lambda>x. x \<in> fst ` set items) (snd preset))))
      else Inr clade)"

text \<open>
  \<^verbatim>\<open>PamlPair.filter_aa\<close>, lines 309-497. The result is the returned value (\<open>None\<close>, or the
  string of line 497) and the object after the call. \<open>set_aa_columns\<close> is the truth of
  \<^verbatim>\<open>set_aa_columns is True\<close>.
\<close>

definition filter_aa ::
  "string list option \<Rightarrow> bool \<Rightarrow> paml_pair \<Rightarrow> error + (string option \<times> paml_pair)" where
  "filter_aa clade_arg set_aa_columns self =
     and_then (for_each (resolve_preset self) preset_dic clade_arg) (\<lambda>clade.
     (case selected_aa self of
        None \<Rightarrow> Inl AttributeError
      | Some sel \<Rightarrow>
          and_then (comprehension (\<lambda>_. Inr True)
                      (\<lambda>pos. and_then (py_int (fst pos)) (\<lambda>n. Inr (n - 1))) sel)
            (\<lambda>selected_positions.
          if is_not_new_list sel then
            (let self = self\<lparr>conserved_aa := Some 0, unique_aa := Some 0, diverse_aa := Some 0,
                   all_clade_unique := Some 0, mostly_conserved := Some 0,
                   mostly_unique := Some 0, mostly_diverse := Some 0, shared := Some 0,
                   variable := Some 0\<rparr>;
                 self = (if set_aa_columns
                         then self\<lparr>conserved_aa_list := Some [], unique_aa_list := Some [],
                                diverse_aa_list := Some [], mostly_conserved_aa_list := Some [],
                                shared_aa_list := Some [], variable_aa_list := Some []\<rparr>
                         else self)
             in and_then (for_each (classify_site clade set_aa_columns) sel self) (\<lambda>self.
                (case alignment self of
                   None \<Rightarrow> Inl AttributeError
                 | Some items \<Rightarrow>
                     and_then (detect_unique_aa items clade) (\<lambda>n.
                     let self = self\<lparr>all_clade_unique := Some n\<rparr> in
                     if set_aa_columns then
                       and_then (detect_conserved_aa items clade selected_positions) (\<lambda>r.
                         Inr (None, self\<lparr>all_conserved := Some (fst r),
                                        all_mostly_conserved := Some (snd r)\<rparr>))
                     else Inr (None, self)))))
          else Inr (Some ''NA'', self))))"


section \<open>Strings, dictionaries and files\<close>

text \<open>\<^verbatim>\<open>s.split()\<close> (runs of whitespace separate the tokens), \<^verbatim>\<open>s.split(d)\<close> for a
  one-character separator, \<^verbatim>\<open>s.startswith(p)\<close>, \<^verbatim>\<open>sub in s\<close> and \<^verbatim>\<open>c.isdigit()\<close> on the
  code points below 256.\<close>

fun split_ws :: "string \<Rightarrow> string \<Rightarrow> string list" where
  "split_ws acc [] = (if acc = [] then [] else [acc])"
| "split_ws acc (c # cs) =
     (if is_space c then (if acc = [] then split_ws [] cs else acc # split_ws [] cs)
      else split_ws (acc @ [c]) cs)"

fun split_on :: "char \<Rightarrow> string \<Rightarrow> string \<Rightarrow> string list" where
  "split_on d acc [] = [acc]"
| "split_on d acc (c # cs) =
     (if c = d then acc # split_on d [] cs else split_on d (acc @ [c]) cs)"

definition startswith :: "string \<Rightarrow> string \<Rightarrow> bool" where
  "startswith s p = (take (length p) s = p)"

fun contains :: "string \<Rightarrow> string \<Rightarrow> bool" where
  "contains sub [] = (sub = [])"
| "contains sub (c # cs) = (startswith (c # cs) sub \<or> contains sub cs)"

definition is_digit :: "char \<Rightarrow> bool" where
  "is_digit c = (is_decimal c \<or> of_char c \<in> {178, 179, 185 :: nat})"

text \<open>\<^verbatim>\<open>d[k] = v\<close> on an ordered dictionary: a key already present keeps its place and
  takes the new value, a new key goes to the end.\<close>

fun dict_set :: "('k \<times> 'v) list \<Rightarrow> 'k \<Rightarrow> 'v \<Rightarrow> ('k \<times> 'v) list" where
  "dict_set [] k v = [(k, v)]"
| "dict_set ((k', v') # d) k v = (if k' = k then (k, v) # d else (k', v') # dict_set d k v)"

text \<open>
  The part of the file system that the program reads: \<open>listdir\<close> gives the names in a
  directory (\<open>None\<close>: \<^verbatim>\<open>os.listdir\<close> raises an OSError), \<open>open_file\<close> the lines that
  iterating over the opened file yields, each with its line terminator (\<open>None\<close>:
  \<^verbatim>\<open>open\<close> raises).
\<close>

record file_system =
  listdir :: "string \<Rightarrow> string list option"
  open_file :: "string \<Rightarrow> string list option"

section \<open>The parser of the alternative model's output\<close>

text \<open>
  The local variables of \<^verbatim>\<open>__parse_main_alternative__\<close> together with the object. The three
  counters only ever hold 0 or 1 and are booleans here. A local that is not yet assigned
  is \<open>None\<close>. \<open>skip\<close> counts the lines that \<^verbatim>\<open>next(file_handle)\<close> has taken from the
  iterator inside the loop body: the \<^verbatim>\<open>for\<close> loop does not see them.
\<close>

record scan_state =
  self :: paml_pair
  counter :: bool
  alignment_counter :: bool
  fall_back_alignment_counter :: bool
  proportion_vals :: "pyfloat list option"
  background_w :: "pyfloat list option"
  foreground_w :: "pyfloat list option"
  skip :: nat

text \<open>\<^verbatim>\<open>float(line.split(":")[-1].split()[0])\<close>; \<open>py_float\<close> stands for Python's \<^verbatim>\<open>float\<close>
  on strings (\<open>None\<close>: ValueError).\<close>

definition to_float :: "(string \<Rightarrow> pyfloat option) \<Rightarrow> string \<Rightarrow> error + pyfloat" where
  "to_float py_float s = (case py_float s of None \<Rightarrow> Inl ValueError | Some x \<Rightarrow> Inr x)"

definition parse_lnL :: "(string \<Rightarrow> pyfloat option) \<Rightarrow> string \<Rightarrow> error + pyfloat" where
  "parse_lnL py_float line =
     and_then (py_index (split_ws [] (last (split_on CHR '':'' [] line))) 0) (to_float py_float)"

definition parse_floats :: "(string \<Rightarrow> pyfloat option) \<Rightarrow> string list \<Rightarrow> error + pyfloat list" where
  "parse_floats py_float xs = comprehension (\<lambda>_. Inr True) (to_float py_float) xs"

text \<open>\<^verbatim>\<open>next(file_handle)\<close>: the first line that neither the loop nor an earlier \<^verbatim>\<open>next\<close>
  has taken.\<close>

definition next_line :: "string list \<Rightarrow> scan_state \<Rightarrow> error + (string \<times> scan_state)" where
  "next_line rest st =
     (case drop (skip st) rest of
        [] \<Rightarrow> Inl StopIteration
      | l # _ \<Rightarrow> Inr (l, st\<lparr>skip := skip st + 1\<rparr>))"

text \<open>The marker lines of the loop body, in the order of the source. Lines 150-157:\<close>

definition seed_marker :: "string \<Rightarrow> string list \<Rightarrow> scan_state \<Rightarrow> error + scan_state" where
  "seed_marker line rest st =
     (if startswith (strip line) ''seed used = '' then
        and_then (next_line rest (st\<lparr>fall_back_alignment_counter := True\<rparr>)) (\<lambda>(gene_length_str, st).
          if strip gene_length_str \<noteq> [] then
            and_then (py_index (split_ws [] (strip gene_length_str)) 1) (\<lambda>g.
              Inr (st\<lparr>self := (self st)\<lparr>gene_length := Some (LenStr g)\<rparr>\<rparr>))
          else Inr st)
      else Inr st)"

text \<open>Lines 159-164.\<close>

definition length_markers :: "string \<Rightarrow> scan_state \<Rightarrow> error + scan_state" where
  "length_markers line st =
     (let st = (if startswith (strip line) ''Before deleting alignment gaps''
                then st\<lparr>fall_back_alignment_counter := False\<rparr> else st)
      in if startswith (strip line) ''After deleting gaps.'' then
           and_then (py_int (filter is_digit line)) (\<lambda>n.
             Inr (st\<lparr>self := (self st)\<lparr>gene_length := Some (LenInt n)\<rparr>\<rparr>))
         else Inr st)"

text \<open>Lines 166-183.\<close>

definition value_markers ::
  "(string \<Rightarrow> pyfloat option) \<Rightarrow> string \<Rightarrow> scan_state \<Rightarrow> error + scan_state" where
  "value_markers py_float line st =
     and_then
       (if startswith (strip line) ''lnL'' then
          and_then (parse_lnL py_float line) (\<lambda>x.
            Inr (st\<lparr>self := (self st)\<lparr>alternative_lnL := Some x\<rparr>\<rparr>))
        else Inr st) (\<lambda>st.
     and_then
       (if startswith (strip line) ''proportion'' then
          and_then (parse_floats py_float (drop 1 (split_ws [] line))) (\<lambda>xs.
            Inr (st\<lparr>proportion_vals := Some xs\<rparr>))
        else Inr st) (\<lambda>st.
     and_then
       (if startswith (strip line) ''background w'' then
          and_then (parse_floats py_float (drop 2 (split_ws [] line))) (\<lambda>xs.
            Inr (st\<lparr>background_w := Some xs\<rparr>))
        else Inr st) (\<lambda>st.
       if startswith (strip line) ''foreground w'' then
         and_then (parse_floats py_float (drop 2 (split_ws [] line))) (\<lambda>xs.
           Inr (st\<lparr>foreground_w := Some xs\<rparr>))
       else Inr st)))"

text \<open>Lines 185-187.\<close>

definition beb_header :: "string \<Rightarrow> string list \<Rightarrow> scan_state \<Rightarrow> error + scan_state" where
  "beb_header line rest st =
     (if startswith (strip line) ''Bayes Empirical Bayes (BEB)'' then
        and_then (next_line rest (st\<lparr>counter := True\<rparr>)) (\<lambda>(l, st). Inr st)
      else Inr st)"

text \<open>Lines 189-195.\<close>

definition reset_counters :: "string \<Rightarrow> scan_state \<Rightarrow> scan_state" where
  "reset_counters line st =
     (let st = (if counter st \<and> startswith (strip line) ''The grid''
                then st\<lparr>counter := False\<rparr> else st)
      in if fall_back_alignment_counter st
            \<and> startswith (strip line) ''Printing out site pattern counts''
         then st\<lparr>fall_back_alignment_counter := False\<rparr> else st)"

text \<open>Lines 197-202.\<close>

definition selected_row :: "string \<Rightarrow> scan_state \<Rightarrow> error + scan_state" where
  "selected_row line st =
     (if counter st \<and> strip line \<noteq> [] then
        (let aa = split_ws [] line in
         and_then (py_index aa (- 1)) (\<lambda>pp.
         if contains ''*'' pp then
           and_then (py_index aa 0) (\<lambda>pos.
             (case selected_aa (self st) of
                None \<Rightarrow> Inl AttributeError
              | Some sel \<Rightarrow>
                  Inr (st\<lparr>self := (self st)\<lparr>selected_aa := Some (sel @ [(pos, pp)])\<rparr>\<rparr>)))
         else Inr st))
      else Inr st)"

text \<open>Lines 204-213.\<close>

definition section_markers :: "string \<Rightarrow> scan_state \<Rightarrow> scan_state" where
  "section_markers line st =
     (let st = (if startswith (strip line) ''After deleting gaps'' then
                  (if \<not> contains '' 0 sites'' line then st\<lparr>alignment_counter := True\<rparr>
                   else st\<lparr>self := (self st)\<lparr>gene_length := Some (LenInt 0)\<rparr>\<rparr>)
                else st)
      in if startswith (strip line) ''Printing out site pattern counts''
         then st\<lparr>alignment_counter := False\<rparr> else st)"

text \<open>Lines 216-237: the three blocks that populate \<^verbatim>\<open>self.alignment\<close>.\<close>

definition store_sequence :: "string \<Rightarrow> scan_state \<Rightarrow> error + scan_state" where
  "store_sequence line st =
     (let fields = split_ws [] (strip line) in
      and_then (py_index fields 0) (\<lambda>species.
      let sequence = drop 1 fields in
      (case alignment (self st) of
         None \<Rightarrow> Inl AttributeError
       | Some al \<Rightarrow> Inr (st\<lparr>self := (self st)\<lparr>alignment := Some (dict_set al species sequence)\<rparr>\<rparr>))))"

definition populate_alignment :: "string \<Rightarrow> scan_state \<Rightarrow> error + scan_state" where
  "populate_alignment line st =
     and_then
       (if length (split_on CHR ''_'' [] line) \<noteq> 1 \<and> alignment_counter st
        then store_sequence line st else Inr st) (\<lambda>st.
     and_then
       (if length (split_on CHR ''_'' [] line) \<noteq> 1 \<and> fall_back_alignment_counter st
           \<and> alignment (self st) \<noteq> Some []
        then store_sequence line st else Inr st) (\<lambda>st.
       if length (split_on CHR ''_'' [] line) \<noteq> 1 \<and> fall_back_alignment_counter st
          \<and> \<not> alignment_counter st
       then store_sequence line st else Inr st))"

text \<open>The loop body, and the loop of line 149 over the lines of the file.\<close>

definition scan_line ::
  "(string \<Rightarrow> pyfloat option) \<Rightarrow> string \<Rightarrow> string list \<Rightarrow> scan_state \<Rightarrow> error + scan_state" where
  "scan_line py_float line rest st =
     and_then (seed_marker line rest st) (\<lambda>st.
     and_then (length_markers line st) (\<lambda>st.
     and_then (value_markers py_float line st) (\<lambda>st.
     and_then (beb_header line rest st) (\<lambda>st.
     and_then (selected_row line (reset_counters line st)) (\<lambda>st.
     populate_alignment line (section_markers line st))))))"

fun scan_lines ::
  "(string \<Rightarrow> pyfloat option) \<Rightarrow> string list \<Rightarrow> scan_state \<Rightarrow> error + scan_state" where
  "scan_lines py_float [] st = Inr st"
| "scan_lines py_float (line # rest) st =
     (if skip st > 0 then scan_lines py_float rest (st\<lparr>skip := skip st - 1\<rparr>)
      else and_then (scan_line py_float line rest st) (scan_lines py_float rest))"

text \<open>The \<^verbatim>\<open>else\<close> clause of the loop, lines 239-249: reading an unassigned local raises
  NameError, which is caught; an IndexError is not.\<close>

definition class_triple ::
  "pyfloat list \<Rightarrow> pyfloat list \<Rightarrow> pyfloat list \<Rightarrow> int \<Rightarrow>
   error + (pyfloat \<times> pyfloat \<times> pyfloat)" where
  "class_triple pv bw fw i =
     and_then (py_index pv i) (\<lambda>p. and_then (py_index bw i) (\<lambda>b. and_then (py_index fw i) (\<lambda>f.
       Inr (p, b, f))))"

definition assign_props :: "scan_state \<Rightarrow> error + paml_pair" where
  "assign_props st =
     (case proportion_vals st of
        None \<Rightarrow> Inr (self st)
      | Some pv \<Rightarrow>
          and_then (py_index pv 0) (\<lambda>p.
          (case background_w st of
             None \<Rightarrow> Inr (self st)
           | Some bw \<Rightarrow>
               and_then (py_index bw 0) (\<lambda>b.
               (case foreground_w st of
                  None \<Rightarrow> Inr (self st)
                | Some fw \<Rightarrow>
                    and_then (class_triple pv bw fw 0) (\<lambda>t0.
                    and_then (class_triple pv bw fw 1) (\<lambda>t1.
                    and_then (class_triple pv bw fw 2) (\<lambda>t2.
                    and_then (class_triple pv bw fw 3) (\<lambda>t3.
                      Inr ((self st)\<lparr>conserved_prop := Some t0, neutral_prop := Some t1,
                             high_selection_prop := Some t2, selection_prop := Some t3\<rparr>))))))))))"

text \<open>Lines 129-135 and 264-270: the path of the output file, and the test for a missing
  one.\<close>

definition output_path :: "string \<Rightarrow> string \<Rightarrow> string \<Rightarrow> string list \<Rightarrow> string" where
  "output_path fld subfolder file_suffix folder_contents =
     fld @ subfolder @ ''/'' @ concat (filter (contains file_suffix) folder_contents)"

text \<open>\<^verbatim>\<open>__parse_main_alternative__\<close>, lines 106-251.\<close>

definition parse_main_alternative ::
  "file_system \<Rightarrow> (string \<Rightarrow> pyfloat option) \<Rightarrow> string \<Rightarrow> string \<Rightarrow> paml_pair \<Rightarrow> error + paml_pair" where
  "parse_main_alternative fs py_float file_suffix subfolder obj =
     (case listdir fs (folder obj @ subfolder) of
        None \<Rightarrow> Inl OSError
      | Some folder_contents \<Rightarrow>
          (let file_path = output_path (folder obj) subfolder file_suffix folder_contents
           in if file_path = folder obj @ subfolder then Inr (obj\<lparr>status := False\<rparr>)
              else
                (case open_file fs file_path of
                   None \<Rightarrow> Inl SystemExit
                 | Some file_lines \<Rightarrow>
                     and_then
                       (scan_lines py_float file_lines
                          \<lparr>self = obj\<lparr>alignment := Some [], selected_aa := Some []\<rparr>,
                           counter = False, alignment_counter = False,
                           fall_back_alignment_counter = False,
                           proportion_vals = None, background_w = None, foreground_w = None,
                           skip = 0\<rparr>)
                       assign_props)))"

text \<open>\<^verbatim>\<open>__parse_main_null__\<close>, lines 253-284.\<close>

definition null_line :: "(string \<Rightarrow> pyfloat option) \<Rightarrow> paml_pair \<Rightarrow> string \<Rightarrow> error + paml_pair" where
  "null_line py_float obj line =
     (if startswith (strip line) ''lnL''
      then and_then (parse_lnL py_float line) (\<lambda>x. Inr (obj\<lparr>null_lnL := Some x\<rparr>))
      else Inr obj)"

definition parse_main_null ::
  "file_system \<Rightarrow> (string \<Rightarrow> pyfloat option) \<Rightarrow> string \<Rightarrow> string \<Rightarrow> paml_pair \<Rightarrow> error + paml_pair" where
  "parse_main_null fs py_float file_suffix subfolder obj =
     (case listdir fs (folder obj @ subfolder) of
        None \<Rightarrow> Inl OSError
      | Some folder_contents \<Rightarrow>
          (let file_path = output_path (folder obj) subfolder file_suffix folder_contents
           in if file_path = folder obj @ subfolder then Inr (obj\<lparr>status := False\<rparr>)
              else
                (case open_file fs file_path of
                   None \<Rightarrow> Inl SystemExit
                 | Some file_lines \<Rightarrow> for_each (null_line py_float) file_lines obj)))"

text \<open>\<^verbatim>\<open>PamlPair.__init__\<close>, lines 60-100.\<close>

definition new_paml_pair ::
  "file_system \<Rightarrow> (string \<Rightarrow> pyfloat option) \<Rightarrow> string \<Rightarrow> error + paml_pair" where
  "new_paml_pair fs py_float fld =
     and_then (parse_main_alternative fs py_float ''.mlc'' ''/Alternative'' (init_pair fld))
       (parse_main_null fs py_float ''.mlc'' ''/Null'')"

section \<open>The set of pairs\<close>

record paml_pair_set =
  R :: "int option"
  L :: "int option"
  S :: "int option"
  class_proportions :: "(string \<times> pyfloat) list option"
  paml_pairs :: "(string \<times> paml_pair) list"

definition init_pair_set :: paml_pair_set where
  "init_pair_set = \<lparr>R = None, L = None, S = None, class_proportions = None, paml_pairs = []\<rparr>"

text \<open>\<^verbatim>\<open>PamlPairSet.__init__\<close>, lines 504-527: each folder is parsed, and parsed again when
  its status is true.\<close>

definition add_folder ::
  "file_system \<Rightarrow> (string \<Rightarrow> pyfloat option) \<Rightarrow> paml_pair_set \<Rightarrow> string \<Rightarrow> error + paml_pair_set" where
  "add_folder fs py_float pset fld =
     and_then (new_paml_pair fs py_float fld) (\<lambda>paml_object.
       if status paml_object then
         and_then (new_paml_pair fs py_float fld) (\<lambda>again.
           Inr (pset\<lparr>paml_pairs := dict_set (paml_pairs pset) fld again\<rparr>))
       else Inr pset)"

definition new_paml_pair_set ::
  "file_system \<Rightarrow> (string \<Rightarrow> pyfloat option) \<Rightarrow> string list \<Rightarrow> error + paml_pair_set" where
  "new_paml_pair_set fs py_float folder_list =
     for_each (add_folder fs py_float) folder_list init_pair_set"

text \<open>\<^verbatim>\<open>test_selection\<close>, \<^verbatim>\<open>set_fdr\<close>, \<^verbatim>\<open>fdr_correction\<close> and \<^verbatim>\<open>test_selection_suite\<close>,
  lines 570-577, 102-104, 647-663 and 534-538. \<open>multipletests\<close> stands for the call of
  \<^verbatim>\<open>statsmodels\<close>' \<^verbatim>\<open>multipletests(pvalue_list, alpha=alpha, method="fdr_bh")\<close>: it raises,
  or it returns the list of corrected p-values (the second component of the tuple that the
  library returns).\<close>

definition test_selection :: "(pyfloat \<Rightarrow> pyfloat) \<Rightarrow> paml_pair_set \<Rightarrow> paml_pair_set" where
  "test_selection chi2_cdf pset =
     pset\<lparr>paml_pairs := map (\<lambda>(gene, pair). (gene, likelihood_ratio_test chi2_cdf pair))
                           (paml_pairs pset)\<rparr>"

definition set_fdr :: "pyfloat \<Rightarrow> paml_pair \<Rightarrow> paml_pair" where
  "set_fdr fdr pair = pair\<lparr>fdr_value := Some fdr\<rparr>"

text \<open>\<^verbatim>\<open>self.paml_pairs[gene].set_fdr(fdr_val)\<close>: the object stored under the key is
  updated.\<close>

definition set_fdr_of ::
  "(string \<times> paml_pair) list \<Rightarrow> string \<times> pyfloat \<Rightarrow> (string \<times> paml_pair) list" where
  "set_fdr_of pairs gf =
     map (\<lambda>(gene, pair). if gene = fst gf then (gene, set_fdr (snd gf) pair) else (gene, pair)) pairs"

definition fdr_correction ::
  "(pyfloat list \<Rightarrow> error + pyfloat list) \<Rightarrow> paml_pair_set \<Rightarrow> error + paml_pair_set" where
  "fdr_correction multipletests pset =
     (let pvalue_dict = fold (\<lambda>(gene, pair) d.
                           (case pvalue pair of None \<Rightarrow> d | Some pv \<Rightarrow> dict_set d gene pv))
                         (paml_pairs pset) [];
          pvalue_list = map snd pvalue_dict
      in and_then (multipletests pvalue_list) (\<lambda>fdr_pvalue_list.
           Inr (pset\<lparr>paml_pairs := fold (\<lambda>gf pairs. set_fdr_of pairs gf)
                                       (zip (map fst pvalue_dict) fdr_pvalue_list)
                                       (paml_pairs pset)\<rparr>)))"

definition test_selection_suite ::
  "(pyfloat \<Rightarrow> pyfloat) \<Rightarrow> (pyfloat list \<Rightarrow> error + pyfloat list) \<Rightarrow> paml_pair_set \<Rightarrow>
   error + paml_pair_set" where
  "test_selection_suite chi2_cdf multipletests pset =
     fdr_correction multipletests (test_selection chi2_cdf pset)"


section \<open>Observations and example inputs\<close>

text \<open>The eight classification counters of a record, in the order conserved, mostly
  conserved, unique, mostly unique, diverse, mostly diverse, shared, variable; and the
  relation between two records that differ in the counters by one increment of counter
  \<open>i\<close>.\<close>

definition counters :: "paml_pair \<Rightarrow> int option list" where
  "counters p = [conserved_aa p, mostly_conserved p, unique_aa p, mostly_unique p,
                 diverse_aa p, mostly_diverse p, shared p, variable p]"

definition incremented_at :: "nat \<Rightarrow> paml_pair \<Rightarrow> paml_pair \<Rightarrow> bool" where
  "incremented_at i p p' =
     (i < 8 \<and> (\<exists>n. counters p ! i = Some n \<and> counters p' = (counters p)[i := Some (n + 1)]))"


text \<open>A gene of seven taxa and two codon columns: the first column is fully conserved, in
  the second the taxa \<^verbatim>\<open>sp_a\<close>, \<^verbatim>\<open>sp_b\<close> and \<^verbatim>\<open>sp_c\<close> carry lysine and the other four
  glycine.\<close>

definition example_alignment :: alignment_map where
  "example_alignment =
     [(''sp_a'', [''ATG'', ''AAA'']), (''sp_b'', [''ATG'', ''AAG'']), (''sp_c'', [''ATG'', ''AAA'']),
      (''sp_d'', [''ATG'', ''GGG'']), (''sp_e'', [''ATG'', ''GGA'']), (''sp_f'', [''ATG'', ''GGC'']),
      (''sp_g'', [''ATG'', ''GGT''])]"

definition example_pair :: paml_pair where
  "example_pair =
     (init_pair ''gene1'')\<lparr>alignment := Some example_alignment,
        selected_aa := Some [(''1'', ''0.991**''), (''2'', ''0.968*'')]\<rparr>"

definition example_zeroed :: paml_pair where
  "example_zeroed =
     example_pair\<lparr>conserved_aa := Some 0, unique_aa := Some 0, diverse_aa := Some 0,
        all_clade_unique := Some 0, mostly_conserved := Some 0, mostly_unique := Some 0,
        mostly_diverse := Some 0, shared := Some 0, variable := Some 0\<rparr>"

text \<open>The situation of an output file that is listed in its directory but cannot be
  opened.\<close>

definition unreadable :: "file_system \<Rightarrow> string \<Rightarrow> string \<Rightarrow> bool" where
  "unreadable fs fld subfolder =
     (case listdir fs (fld @ subfolder) of
        None \<Rightarrow> False
      | Some folder_contents \<Rightarrow>
          filter (contains ''.mlc'') folder_contents \<noteq> [] \<and>
          open_file fs (output_path fld subfolder ''.mlc'' folder_contents) = None)"

text \<open>
  Example inputs: a file system with three gene folders and the values of \<^verbatim>\<open>float\<close> on the
  two likelihood tokens that occur in it. In \<^verbatim>\<open>gene1\<close> the taxon \<^verbatim>\<open>sp_a\<close> has two
  sequence lines; the output file of \<^verbatim>\<open>gene2\<close> is listed but cannot be opened; the
  \<^verbatim>\<open>Alternative\<close> directory of \<^verbatim>\<open>gene3\<close> holds no \<^verbatim>\<open>.mlc\<close> file (opening the
  directory path itself fails).
\<close>

definition newline :: string where
  "newline = [CHR 0x0A]"

definition example_float :: "string \<Rightarrow> pyfloat option" where
  "example_float s =
     (if s = ''-2500.5'' then Some (Finite (- 2500.5))
      else if s = ''-2505.25'' then Some (Finite (- 2505.25))
      else None)"

definition example_fs :: file_system where
  "example_fs =
     \<lparr>listdir = (\<lambda>d.
         if d = ''gene1/Alternative'' \<or> d = ''gene1/Null'' then Some [''gene1.mlc'', ''rst'']
         else if d = ''gene2/Alternative'' \<or> d = ''gene2/Null'' then Some [''gene2.mlc'']
         else if d = ''gene3/Alternative'' then Some [''rst'', ''rub'']
         else if d = ''gene3/Null'' then Some [''gene3.mlc'']
         else None),
       open_file = (\<lambda>f.
         if f = ''gene1/Alternative/gene1.mlc'' then
           Some [''After deleting gaps. 3 sites'' @ newline,
                 ''sp_a   ATG AAA'' @ newline,
                 ''sp_b   ATG AAG'' @ newline,
                 ''sp_a   GGG'' @ newline,
                 ''Printing out site pattern counts'' @ newline,
                 ''lnL(ntime:  3  np:  8):  -2500.5  +0.000'' @ newline]
         else if f = ''gene1/Null/gene1.mlc'' \<or> f = ''gene3/Null/gene3.mlc'' then
           Some [''lnL(ntime:  3  np:  7):  -2505.25  +0.000'' @ newline]
         else None)\<rparr>"

definition example_scan :: scan_state where
  "example_scan =
     \<lparr>self = (init_pair ''gene1'')\<lparr>alignment := Some [(''sp_a'', [''ATG'', ''AAA''])],
                selected_aa := Some []\<rparr>,
      counter = False, alignment_counter = True, fall_back_alignment_counter = False,
      proportion_vals = None, background_w = None, foreground_w = None, skip = 0\<rparr>"

definition example_pair_set :: paml_pair_set where
  "example_pair_set =
     init_pair_set\<lparr>paml_pairs :=
       [(''gene1'', (init_pair ''gene1'')\<lparr>alternative_lnL := Some (Finite (- 2500.5)),
                       null_lnL := Some (Finite (- 2505.25))\<rparr>),
        (''gene4'', init_pair ''gene4'')]\<rparr>"

text \<open>
  Example library functions. \<open>example_cdf\<close> is a distribution function on the
  non-negative reals that, as \<^verbatim>\<open>scipy\<close>'s does, is 0 below zero and at minus infinity,
  1 at infinity and NaN at NaN. \<open>example_multipletests\<close> raises on the empty list, as
  \<^verbatim>\<open>statsmodels\<close> does, and returns one value per p-value otherwise.
\<close>

definition example_cdf :: "pyfloat \<Rightarrow> pyfloat" where
  "example_cdf x =
     (case x of
        Finite r \<Rightarrow> (if r < 0 then Finite 0 else Finite (r / (1 + r)))
      | PosInf \<Rightarrow> Finite 1
      | NegInf \<Rightarrow> Finite 0
      | NaN \<Rightarrow> NaN)"

definition example_multipletests :: "pyfloat list \<Rightarrow> error + pyfloat list" where
  "example_multipletests ps =
     (if ps = [] then Inl ZeroDivisionError
      else Inr (map (\<lambda>p. float_mul (Finite (1 / 2)) (float_sub p (Finite (- 1)))) ps))"

text \<open>A gene whose alternative output reports the likelihood \<^verbatim>\<open>nan\<close>, which \<^verbatim>\<open>float\<close>
  parses.\<close>

definition nan_float :: "string \<Rightarrow> pyfloat option" where
  "nan_float s =
     (if s = ''nan'' then Some NaN
      else if s = ''-2505.25'' then Some (Finite (- 2505.25))
      else None)"

definition nan_fs :: file_system where
  "nan_fs =
     \<lparr>listdir = (\<lambda>d.
         if d = ''gene5/Alternative'' \<or> d = ''gene5/Null'' then Some [''gene5.mlc'']
         else None),
       open_file = (\<lambda>f.
         if f = ''gene5/Alternative/gene5.mlc'' then
           Some [''lnL(ntime:  3  np:  8):  nan  +0.000'' @ newline]
         else if f = ''gene5/Null/gene5.mlc'' then
           Some [''lnL(ntime:  3  np:  7):  -2505.25  +0.000'' @ newline]
         else None)\<rparr>"

text \<open>An alignment of ten taxa: in the first column seven taxa carry lysine and three
  glycine, the second column is fully conserved.\<close>

definition ten_taxa :: alignment_map where
  "ten_taxa =
     [(''t_0'', [''AAA'', ''ATG'']), (''t_1'', [''AAA'', ''ATG'']), (''t_2'', [''AAG'', ''ATG'']),
      (''t_3'', [''AAA'', ''ATG'']), (''t_4'', [''AAA'', ''ATG'']), (''t_5'', [''AAG'', ''ATG'']),
      (''t_6'', [''AAA'', ''ATG'']), (''t_7'', [''GGG'', ''ATG'']), (''t_8'', [''GGA'', ''ATG'']),
      (''t_9'', [''GGC'', ''ATG''])]"

text \<open>A likelihood attribute that is \<^verbatim>\<open>None\<close> or a finite number.\<close>

definition finite_or_missing :: "pyfloat option \<Rightarrow> bool" where
  "finite_or_missing x =
     (case x of None \<Rightarrow> True | Some (Finite r) \<Rightarrow> True | Some PosInf \<Rightarrow> False
      | Some NegInf \<Rightarrow> False | Some NaN \<Rightarrow> False)"

section \<open>Auxiliary facts\<close>

lemma and_then_Inr: "and_then m f = Inr y \<longleftrightarrow> (\<exists>x. m = Inr x \<and> f x = Inr y)"
  by (cases m) auto

lemma length_counters: "length (counters p) = 8"
  by (simp add: counters_def)

lemma incremented_at_unique:
  assumes "incremented_at i p p'" and "incremented_at j p p'"
  shows "i = j"
proof (rule ccontr)
  assume ne: "i \<noteq> j"
  from assms obtain n m where
    i: "i < 8" "counters p ! i = Some n" "counters p' = (counters p)[i := Some (n + 1)]" and
    j: "j < 8" "counters p ! j = Some m" "counters p' = (counters p)[j := Some (m + 1)]"
    by (auto simp: incremented_at_def)
  have "counters p' ! i = Some (n + 1)" using i by (simp add: length_counters)
  moreover have "counters p' ! i = Some n" using j(3) i(2) ne by simp
  ultimately show False by simp
qed

lemma increment_conserved:
  "increment conserved_aa conserved_aa_update p = Inr p' \<Longrightarrow> incremented_at 0 p p' \<and> mostly_unique p' = mostly_unique p"
  by (auto simp: increment_def incremented_at_def counters_def split: option.splits)
lemma increment_mostly_conserved:
  "increment mostly_conserved mostly_conserved_update p = Inr p' \<Longrightarrow> incremented_at 1 p p' \<and> mostly_unique p' = mostly_unique p"
  by (auto simp: increment_def incremented_at_def counters_def split: option.splits)
lemma increment_unique:
  "increment unique_aa unique_aa_update p = Inr p' \<Longrightarrow> incremented_at 2 p p' \<and> mostly_unique p' = mostly_unique p"
  by (auto simp: increment_def incremented_at_def counters_def split: option.splits)
lemma increment_mostly_unique:
  "increment mostly_unique mostly_unique_update p = Inr p' \<Longrightarrow> incremented_at 3 p p'"
  by (auto simp: increment_def incremented_at_def counters_def split: option.splits)
lemma increment_diverse:
  "increment diverse_aa diverse_aa_update p = Inr p' \<Longrightarrow> incremented_at 4 p p' \<and> mostly_unique p' = mostly_unique p"
  by (auto simp: increment_def incremented_at_def counters_def split: option.splits)
lemma increment_mostly_diverse:
  "increment mostly_diverse mostly_diverse_update p = Inr p' \<Longrightarrow> incremented_at 5 p p' \<and> mostly_unique p' = mostly_unique p"
  by (auto simp: increment_def incremented_at_def counters_def split: option.splits)
lemma increment_shared:
  "increment shared shared_update p = Inr p' \<Longrightarrow> incremented_at 6 p p' \<and> mostly_unique p' = mostly_unique p"
  by (auto simp: increment_def incremented_at_def counters_def split: option.splits)
lemma increment_variable:
  "increment variable variable_update p = Inr p' \<Longrightarrow> incremented_at 7 p p' \<and> mostly_unique p' = mostly_unique p"
  by (auto simp: increment_def incremented_at_def counters_def split: option.splits)

lemma record_conserved_counters:
  "record_columns conserved_aa_list conserved_aa_list_update items clade i p = Inr p' \<Longrightarrow> counters p' = counters p"
  by (auto simp: record_columns_def append_to_def and_then_Inr counters_def split: option.splits)
lemma record_mostly_conserved_counters:
  "record_columns mostly_conserved_aa_list mostly_conserved_aa_list_update items clade i p = Inr p' \<Longrightarrow> counters p' = counters p"
  by (auto simp: record_columns_def append_to_def and_then_Inr counters_def split: option.splits)
lemma record_shared_counters:
  "record_columns shared_aa_list shared_aa_list_update items clade i p = Inr p' \<Longrightarrow> counters p' = counters p"
  by (auto simp: record_columns_def append_to_def and_then_Inr counters_def split: option.splits)

lemma incremented_at_cong:
  "incremented_at i p q \<Longrightarrow> counters q' = counters q \<Longrightarrow> incremented_at i p q'"
  by (simp add: incremented_at_def)

lemma incremented_at_cong2:
  "incremented_at i p q \<Longrightarrow> counters p' = counters p \<Longrightarrow> incremented_at i p' q"
  by (simp add: incremented_at_def)

lemma frequency_classes_increments:
  assumes "frequency_classes clade flag items pos col mc csa p = Inr p'" and "mc \<noteq> []"
  shows "\<exists>i. incremented_at i p p'"
  using assms
  unfolding frequency_classes_def Let_def
  by (auto simp: and_then_Inr split: list.splits if_splits option.splits
      dest!: increment_mostly_conserved increment_shared increment_variable
             record_mostly_conserved_counters record_shared_counters
      intro: incremented_at_cong)


lemma frequency_classes_mostly_unique:
  assumes "frequency_classes clade flag items pos col mc csa p = Inr p'"
  shows "mostly_unique p' = mostly_unique p"
  using assms
  unfolding frequency_classes_def Let_def
  by (auto simp: and_then_Inr record_columns_def append_to_def
      split: list.splits if_splits option.splits
      dest!: increment_mostly_conserved increment_shared increment_variable)

lemma most_common_nonempty:
  assumes "col \<noteq> []"
  shows "most_common col \<noteq> []"
proof -
  let ?f = "count_list col"
  have fin: "finite (?f ` set col)" and ne: "?f ` set col \<noteq> {}"
    using assms by auto
  from Max_in [OF fin ne] obtain x where x: "x \<in> set col" "?f x = Max (?f ` set col)"
    by auto
  have "\<forall>y \<in> set col. ?f y \<le> ?f x"
    using x(2) fin by (auto intro: Max_ge)
  then have "x \<in> set (most_common col)"
    using x(1) by (simp add: most_common_def list_all_iff)
  then show ?thesis by auto
qed

text \<open>The members of \<open>most_common\<close> all have the same count in the column, so the
  frequency that the code computes from the first member does not depend on the order in
  which Python iterates over the set.\<close>

lemma most_common_same_count:
  assumes "x \<in> set (most_common col)" and "y \<in> set (most_common col)"
  shows "count_list col x = count_list col y"
proof -
  from assms have "count_list col y \<le> count_list col x" "count_list col x \<le> count_list col y"
    by (auto simp: most_common_def list_all_iff)
  then show ?thesis by simp
qed

lemma comprehension_all_length:
  "comprehension (\<lambda>_. Inr True) f xs = Inr ys \<Longrightarrow> length ys = length xs"
  by (induction xs arbitrary: ys) (auto simp: and_then_Inr)

lemma column_nonempty:
  assumes "aa_column_at items pos = Inr col" and "clade_aa_at items clade pos = Inr csa"
    and "csa \<noteq> []"
  shows "col \<noteq> []"
proof
  assume "col = []"
  with assms(1) have "items = []"
    by (auto simp: aa_column_at_def dest: comprehension_all_length)
  with assms(2,3) show False by (simp add: clade_aa_at_def)
qed

lemma clade_classes_increments:
  assumes "clade_classes (Some c) flag items pos col mc p = Inr p'"
    and "aa_column_at items pos = Inr col" and "mc = most_common col"
  shows "\<exists>i. incremented_at i p p'"
proof -
  from assms(1) obtain csa oth where
    csa: "clade_aa_at items (Some c) pos = Inr csa" and
    oth: "other_aa_at items (Some c) pos = Inr oth"
    by (auto simp: clade_classes_def and_then_Inr)
  show ?thesis
  proof (cases "csa = []")
    case True
    with assms(1) csa oth show ?thesis
      by (auto simp: clade_classes_def dest!: increment_diverse)
  next
    case False
    then have "mc \<noteq> []"
      using column_nonempty [OF assms(2) csa] most_common_nonempty assms(3) by simp
    with assms(1) csa oth show ?thesis
      unfolding clade_classes_def
      by (auto split: if_splits
          dest!: increment_unique increment_diverse increment_mostly_unique
                 increment_mostly_diverse
          dest: frequency_classes_increments)
  qed
qed

lemma classify_site_increments:
  assumes "classify_site (Some c) flag p site = Inr p'"
  shows "\<exists>i. incremented_at i p p'"
proof -
  from assms obtain n items col where
    n: "py_int (fst site) = Inr n" and items: "alignment p = Some items" and
    col: "aa_column_at items (n - 1) = Inr col"
    by (auto simp: classify_site_def and_then_Inr Let_def split: option.splits)
  let ?q = "p\<lparr>most_common_aa := Some (most_common col)\<rparr>"
  have cq: "counters ?q = counters p" by (simp add: counters_def)
  show ?thesis
  proof (cases "length (remdups col) = 1")
    case True
    with assms n items col obtain q' where
      q': "increment conserved_aa conserved_aa_update ?q = Inr q'" and
      p': "p' = q' \<or> record_columns conserved_aa_list conserved_aa_list_update items (Some c) (n - 1) q' = Inr p'"
      by (auto simp: classify_site_def Let_def and_then_Inr split: if_splits)
    from increment_conserved [OF q'] have "incremented_at 0 p q'"
      using cq [symmetric] by (blast intro: incremented_at_cong2)
    with p' show ?thesis
      by (auto dest: record_conserved_counters intro: incremented_at_cong)
  next
    case False
    with assms n items col have
      "clade_classes (Some c) flag items (n - 1) col (most_common col) ?q = Inr p'"
      by (auto simp: classify_site_def Let_def)
    from clade_classes_increments [OF this col refl] show ?thesis
      using cq [symmetric] by (blast intro: incremented_at_cong2)
  qed
qed

lemma sum_list_bump:
  "i < length ns \<Longrightarrow> sum_list (ns[i := ns ! i + 1]) = sum_list ns + (1::int)"
  by (induction ns arbitrary: i) (auto split: nat.splits)

lemma incremented_at_values:
  assumes "incremented_at i p q" and "counters p = map Some ns"
  shows "\<exists>ns'. counters q = map Some ns' \<and> sum_list ns' = sum_list ns + 1"
proof -
  have len: "length ns = 8"
    using assms(2) length_counters [of p] by (metis length_map)
  from assms(1) obtain n where i: "i < 8" and n: "counters p ! i = Some n"
    and q: "counters q = (counters p)[i := Some (n + 1)]"
    by (auto simp: incremented_at_def)
  from n assms(2) i len have "ns ! i = n" by simp
  with q assms(2) have "counters q = map Some (ns[i := ns ! i + 1])"
    by (simp add: map_update)
  moreover have "sum_list (ns[i := ns ! i + 1]) = sum_list ns + 1"
    using i len by (simp add: sum_list_bump)
  ultimately show ?thesis by blast
qed

lemma classification_loop:
  "for_each (classify_site (Some c) flag) sel p = Inr p' \<Longrightarrow> counters p = map Some ns \<Longrightarrow>
   \<exists>ns'. counters p' = map Some ns' \<and> sum_list ns' = sum_list ns + int (length sel)"
proof (induction sel arbitrary: p ns)
  case Nil
  then show ?case by auto
next
  case (Cons site sel)
  from Cons.prems(1) obtain q where
    q: "classify_site (Some c) flag p site = Inr q" and
    rest: "for_each (classify_site (Some c) flag) sel q = Inr p'"
    by (auto simp: and_then_Inr)
  from classify_site_increments [OF q] obtain i where "incremented_at i p q" ..
  from incremented_at_values [OF this Cons.prems(2)] obtain ms where
    ms: "counters q = map Some ms" "sum_list ms = sum_list ns + 1" by blast
  from Cons.IH [OF rest ms(1)] ms(2) show ?case by auto
qed

lemma resolve_presets_Some:
  "for_each (resolve_preset p) presets (Some c) = Inr clade \<Longrightarrow> \<exists>c'. clade = Some c'"
  by (induction presets arbitrary: c)
     (auto simp: and_then_Inr resolve_preset_def split: if_splits option.splits)

lemma filter_aa_sum:
  assumes "filter_aa (Some c) flag p = Inr (r, p')" and "selected_aa p = Some sel"
  shows "\<exists>ns. counters p' = map Some ns \<and> sum_list ns = int (length sel)"
proof -
  define z where "z = p\<lparr>conserved_aa := Some 0, unique_aa := Some 0, diverse_aa := Some 0,
                   all_clade_unique := Some 0, mostly_conserved := Some 0,
                   mostly_unique := Some 0, mostly_diverse := Some 0, shared := Some 0,
                   variable := Some 0\<rparr>"
  define z' where "z' = (if flag
                         then z\<lparr>conserved_aa_list := Some [], unique_aa_list := Some [],
                                diverse_aa_list := Some [], mostly_conserved_aa_list := Some [],
                                shared_aa_list := Some [], variable_aa_list := Some []\<rparr>
                         else z)"
  have cz: "counters z' = map Some [0, 0, 0, 0, 0, 0, 0, 0]"
    by (simp add: z'_def z_def counters_def)
  from assms obtain clade q where
    clade: "for_each (resolve_preset p) preset_dic (Some c) = Inr clade" and
    loop: "for_each (classify_site clade flag) sel z' = Inr q" and
    fin: "counters p' = counters q"
    unfolding filter_aa_def Let_def z'_def z_def
    by (auto simp: and_then_Inr is_not_new_list_def counters_def split: option.splits if_splits)
  from resolve_presets_Some [OF clade] obtain c' where "clade = Some c'" ..
  with loop have "for_each (classify_site (Some c') flag) sel z' = Inr q" by simp
  from classification_loop [OF this cz] fin show ?thesis by auto
qed

lemma record_conserved_mostly_unique:
  "record_columns conserved_aa_list conserved_aa_list_update items clade i p = Inr p' \<Longrightarrow>
   mostly_unique p' = mostly_unique p"
  by (auto simp: record_columns_def append_to_def and_then_Inr split: option.splits)

lemma clade_classes_mostly_unique:
  assumes cc: "clade_classes (Some c) flag items pos col mc q = Inr p'"
    and csa: "clade_aa_at items (Some c) pos = Inr csa"
    and oth: "other_aa_at items (Some c) pos = Inr oth"
    and mu: "mostly_unique p' \<noteq> mostly_unique q"
  shows "filter (\<lambda>x. count_list csa x > count_list oth x) csa \<noteq> [] \<and>
         length (remdups csa) = 1 \<and> hd csa \<notin> set mc"
proof -
  let ?freq = "frequency_classes (Some c) flag items pos col mc (Some csa) q"
  have fall: "?freq \<noteq> Inr p'"
    using frequency_classes_mostly_unique mu by blast
  consider (u) "increment unique_aa unique_aa_update q = Inr p'"
    | (d) "increment diverse_aa diverse_aa_update q = Inr p'"
    | (md) "increment mostly_diverse mostly_diverse_update q = Inr p'"
    | (f) "?freq = Inr p'"
    | (m) "filter (\<lambda>x. count_list csa x > count_list oth x) csa \<noteq> []"
          "length (remdups csa) = 1" "hd csa \<notin> set mc"
    using cc csa oth unfolding clade_classes_def
    by (auto split: if_splits)
  then show ?thesis
  proof cases
    case u then show ?thesis using increment_unique mu by blast
  next
    case d then show ?thesis using increment_diverse mu by blast
  next
    case md then show ?thesis using increment_mostly_diverse mu by blast
  next
    case f then show ?thesis using fall by simp
  next
    case m then show ?thesis by simp
  qed
qed



lemma length_split_on:
  "length (split_on d acc s) = Suc (length (filter (\<lambda>c. c = d) s))"
  by (induction s arbitrary: acc) auto

lemma split_on_single: "length (split_on d [] s) \<noteq> Suc 0 \<longleftrightarrow> d \<in> set s"
  by (auto simp: length_split_on filter_empty_conv)

lemma split_ws_nonempty:
  "acc \<noteq> [] \<or> (\<exists>c \<in> set s. \<not> is_space c) \<Longrightarrow> split_ws acc s \<noteq> []"
  by (induction s arbitrary: acc) auto

lemma dropWhile_keeps: "x \<in> set xs \<Longrightarrow> \<not> P x \<Longrightarrow> x \<in> set (dropWhile P xs)"
  by (induction xs) auto

lemma strip_keeps: "x \<in> set s \<Longrightarrow> \<not> is_space x \<Longrightarrow> x \<in> set (strip s)"
  by (simp add: strip_def dropWhile_keeps)

lemma underscore_not_space: "\<not> is_space CHR ''_''"
  by (simp add: is_space_def)

lemma fields_of_taxon_line:
  assumes "CHR ''_'' \<in> set line"
  shows "\<exists>species sequence. split_ws [] (strip line) = species # sequence"
proof -
  have "CHR ''_'' \<in> set (strip line)"
    using assms underscore_not_space by (rule strip_keeps)
  then have "split_ws [] (strip line) \<noteq> []"
    using underscore_not_space by (intro split_ws_nonempty) blast
  then show ?thesis by (cases "split_ws [] (strip line)") auto
qed

lemma py_index_first: "py_index (x # xs) 0 = Inr x"
  by (simp add: py_index_def)

lemma dict_set_twice: "dict_set (dict_set d k v) k v = dict_set d k v"
  by (induction d) auto

lemma dict_set_nonempty: "dict_set d k v \<noteq> []"
  by (cases d) (auto split: if_splits)

lemma map_of_dict_set: "map_of (dict_set d k v) k = Some v"
  by (induction d) auto

lemma map_of_dict_set_other: "k' \<noteq> k \<Longrightarrow> map_of (dict_set d k v) k' = map_of d k'"
  by (induction d) auto

lemma store_sequence_fields:
  assumes "split_ws [] (strip line) = species # sequence" and "alignment (self st) = Some al"
  shows "store_sequence line st =
           Inr (st\<lparr>self := (self st)\<lparr>alignment := Some (dict_set al species sequence)\<rparr>\<rparr>)"
  using assms by (simp add: store_sequence_def py_index_first)


lemma for_each_append:
  "for_each body (xs @ ys) s = and_then (for_each body xs s) (for_each body ys)"
proof (induction xs arbitrary: s)
  case Nil
  then show ?case by simp
next
  case (Cons x xs)
  then show ?case by (cases "body s x") simp_all
qed

lemma output_path_differs: "output_path fld subfolder suffix contents \<noteq> fld @ subfolder"
  by (simp add: output_path_def)

lemma guarded:
  "(if c then m else Inr st) = Inr st' \<Longrightarrow> (m = Inr st' \<Longrightarrow> P st') \<Longrightarrow> P st \<Longrightarrow> P st'"
  by (cases c) auto

lemma guarded_update:
  "(if c then and_then m (\<lambda>x. Inr (g x)) else Inr st) = Inr st' \<Longrightarrow>
   (\<And>x. F (g x) = F st) \<Longrightarrow> F st' = F st"
  by (cases c; cases m) auto

lemma next_line_folder:
  "next_line rest st = Inr (l, st') \<Longrightarrow> folder (self st') = folder (self st)"
  by (auto simp: next_line_def split: list.splits)

lemma seed_marker_folder:
  assumes "seed_marker line rest st = Inr st'"
  shows "folder (self st') = folder (self st)"
proof (cases "startswith (strip line) ''seed used = ''")
  case False
  with assms show ?thesis by (simp add: seed_marker_def)
next
  case True
  with assms obtain g st1 where
    nxt: "next_line rest (st\<lparr>fall_back_alignment_counter := True\<rparr>) = Inr (g, st1)" and
    fin: "(if strip g \<noteq> [] then
            and_then (py_index (split_ws [] (strip g)) 1) (\<lambda>g.
              Inr (st1\<lparr>self := (self st1)\<lparr>gene_length := Some (LenStr g)\<rparr>\<rparr>))
          else Inr st1) = Inr st'"
    by (simp add: seed_marker_def and_then_Inr split: prod.splits) blast
  from next_line_folder [OF nxt] have "folder (self st1) = folder (self st)" by simp
  moreover from fin have "folder (self st') = folder (self st1)"
    by (rule guarded_update [where F = "\<lambda>s. folder (self s)"]) simp
  ultimately show ?thesis by simp
qed

lemma length_markers_folder:
  "length_markers line st = Inr st' \<Longrightarrow> folder (self st') = folder (self st)"
  by (auto simp: length_markers_def Let_def and_then_Inr split: if_splits)

lemma value_markers_folder:
  assumes "value_markers py_float line st = Inr st'"
  shows "folder (self st') = folder (self st)"
proof -
  from assms obtain st1 st2 st3 where
    a: "(if startswith (strip line) ''lnL'' then
          and_then (parse_lnL py_float line) (\<lambda>x.
            Inr (st\<lparr>self := (self st)\<lparr>alternative_lnL := Some x\<rparr>\<rparr>))
        else Inr st) = Inr st1" and
    b: "(if startswith (strip line) ''proportion'' then
          and_then (parse_floats py_float (drop 1 (split_ws [] line))) (\<lambda>xs.
            Inr (st1\<lparr>proportion_vals := Some xs\<rparr>))
        else Inr st1) = Inr st2" and
    c: "(if startswith (strip line) ''background w'' then
          and_then (parse_floats py_float (drop 2 (split_ws [] line))) (\<lambda>xs.
            Inr (st2\<lparr>background_w := Some xs\<rparr>))
        else Inr st2) = Inr st3" and
    d: "(if startswith (strip line) ''foreground w'' then
         and_then (parse_floats py_float (drop 2 (split_ws [] line))) (\<lambda>xs.
           Inr (st3\<lparr>foreground_w := Some xs\<rparr>))
       else Inr st3) = Inr st'"
    unfolding value_markers_def and_then_Inr by blast
  have "folder (self st1) = folder (self st)"
    using a by (rule guarded_update [where F = "\<lambda>s. folder (self s)"]) simp
  moreover have "folder (self st2) = folder (self st1)"
    using b by (rule guarded_update [where F = "\<lambda>s. folder (self s)"]) simp
  moreover have "folder (self st3) = folder (self st2)"
    using c by (rule guarded_update [where F = "\<lambda>s. folder (self s)"]) simp
  moreover have "folder (self st') = folder (self st3)"
    using d by (rule guarded_update [where F = "\<lambda>s. folder (self s)"]) simp
  ultimately show ?thesis by simp
qed

lemma beb_header_folder:
  assumes "beb_header line rest st = Inr st'"
  shows "folder (self st') = folder (self st)"
proof (cases "startswith (strip line) ''Bayes Empirical Bayes (BEB)''")
  case False
  with assms show ?thesis by (simp add: beb_header_def)
next
  case True
  with assms obtain l where "next_line rest (st\<lparr>counter := True\<rparr>) = Inr (l, st')"
    by (auto simp: beb_header_def and_then_Inr)
  from next_line_folder [OF this] show ?thesis by simp
qed

lemma reset_counters_folder: "folder (self (reset_counters line st)) = folder (self st)"
  by (simp add: reset_counters_def Let_def)

lemma selected_row_folder:
  assumes "selected_row line st = Inr st'"
  shows "folder (self st') = folder (self st)"
proof (cases "counter st \<and> strip line \<noteq> []")
  case False
  with assms show ?thesis by (auto simp: selected_row_def)
next
  case True
  with assms obtain pp where
    row: "(if contains ''*'' pp then
             and_then (py_index (split_ws [] line) 0) (\<lambda>pos.
               (case selected_aa (self st) of
                  None \<Rightarrow> Inl AttributeError
                | Some sel \<Rightarrow>
                    Inr (st\<lparr>self := (self st)\<lparr>selected_aa := Some (sel @ [(pos, pp)])\<rparr>\<rparr>)))
           else Inr st) = Inr st'"
    by (auto simp: selected_row_def Let_def and_then_Inr)
  show ?thesis
  proof (cases "contains ''*'' pp")
    case False
    with row show ?thesis by simp
  next
    case True
    with row obtain pos sel where
      "st' = st\<lparr>self := (self st)\<lparr>selected_aa := Some (sel @ [(pos, pp)])\<rparr>\<rparr>"
      by (auto simp: and_then_Inr split: option.splits)
    then show ?thesis by simp
  qed
qed

lemma section_markers_folder: "folder (self (section_markers line st)) = folder (self st)"
  by (simp add: section_markers_def Let_def)

lemma store_sequence_folder:
  "store_sequence line st = Inr st' \<Longrightarrow> folder (self st') = folder (self st)"
  by (auto simp: store_sequence_def Let_def and_then_Inr split: option.splits)

lemma populate_alignment_folder:
  assumes "populate_alignment line st = Inr st'"
  shows "folder (self st') = folder (self st)"
proof -
  from assms obtain st1 st2 where
    a: "(if length (split_on CHR ''_'' [] line) \<noteq> 1 \<and> alignment_counter st
        then store_sequence line st else Inr st) = Inr st1" and
    b: "(if length (split_on CHR ''_'' [] line) \<noteq> 1 \<and> fall_back_alignment_counter st1
           \<and> alignment (self st1) \<noteq> Some []
        then store_sequence line st1 else Inr st1) = Inr st2" and
    c: "(if length (split_on CHR ''_'' [] line) \<noteq> 1 \<and> fall_back_alignment_counter st2
          \<and> \<not> alignment_counter st2
       then store_sequence line st2 else Inr st2) = Inr st'"
    unfolding populate_alignment_def and_then_Inr by blast
  have "folder (self st1) = folder (self st)"
    using a by (rule guarded) (auto dest: store_sequence_folder)
  moreover have "folder (self st2) = folder (self st1)"
    using b by (rule guarded) (auto dest: store_sequence_folder)
  moreover have "folder (self st') = folder (self st2)"
    using c by (rule guarded) (auto dest: store_sequence_folder)
  ultimately show ?thesis by simp
qed

lemma scan_line_folder:
  assumes "scan_line py_float line rest st = Inr st'"
  shows "folder (self st') = folder (self st)"
proof -
  from assms obtain s1 s2 s3 s4 s5 where
    "seed_marker line rest st = Inr s1" "length_markers line s1 = Inr s2"
    "value_markers py_float line s2 = Inr s3" "beb_header line rest s3 = Inr s4"
    "selected_row line (reset_counters line s4) = Inr s5"
    "populate_alignment line (section_markers line s5) = Inr st'"
    unfolding scan_line_def and_then_Inr by blast
  then show ?thesis
    using seed_marker_folder [of line rest st s1] length_markers_folder [of line s1 s2]
      value_markers_folder [of py_float line s2 s3] beb_header_folder [of line rest s3 s4]
      selected_row_folder [of line "reset_counters line s4" s5]
      populate_alignment_folder [of line "section_markers line s5" st']
    by (simp add: reset_counters_folder section_markers_folder)
qed

lemma scan_lines_folder:
  "scan_lines py_float file_lines st = Inr st' \<Longrightarrow> folder (self st') = folder (self st)"
proof (induction file_lines arbitrary: st)
  case Nil
  then show ?case by simp
next
  case (Cons line rest)
  show ?case
  proof (cases "skip st > 0")
    case True
    with Cons.prems have "scan_lines py_float rest (st\<lparr>skip := skip st - 1\<rparr>) = Inr st'"
      by simp
    from Cons.IH [OF this] show ?thesis by simp
  next
    case False
    with Cons.prems obtain st1 where
      one: "scan_line py_float line rest st = Inr st1" and
      more: "scan_lines py_float rest st1 = Inr st'"
      by (auto simp: and_then_Inr)
    from Cons.IH [OF more] scan_line_folder [OF one] show ?thesis by simp
  qed
qed

lemma assign_props_folder:
  "assign_props st = Inr obj \<Longrightarrow> folder obj = folder (self st)"
  by (auto simp: assign_props_def and_then_Inr split: option.splits)

lemma parse_main_alternative_folder:
  assumes "parse_main_alternative fs py_float suffix subfolder obj = Inr obj'"
  shows "folder obj' = folder obj"
proof -
  from assms obtain contents file_lines st where
    "scan_lines py_float file_lines
        \<lparr>self = obj\<lparr>alignment := Some [], selected_aa := Some []\<rparr>,
         counter = False, alignment_counter = False, fall_back_alignment_counter = False,
         proportion_vals = None, background_w = None, foreground_w = None, skip = 0\<rparr> = Inr st"
    "assign_props st = Inr obj'"
    by (auto simp: parse_main_alternative_def Let_def and_then_Inr output_path_differs
        split: option.splits)
  from scan_lines_folder [OF this(1)] assign_props_folder [OF this(2)] show ?thesis by simp
qed

lemma unreadable_SystemExit:
  assumes "unreadable fs (folder obj) subfolder"
  shows "parse_main_alternative fs py_float ''.mlc'' subfolder obj = Inl SystemExit"
    and "parse_main_null fs py_float ''.mlc'' subfolder obj = Inl SystemExit"
  using assms
  by (auto simp: unreadable_def parse_main_alternative_def parse_main_null_def Let_def
      output_path_differs split: option.splits)

lemma folder_init_pair: "folder (init_pair g) = g"
  by (simp add: init_pair_def)


lemma py_index_head: "py_index mc 0 = Inr m \<Longrightarrow> m = hd mc"
  by (cases mc) (auto simp: py_index_def)

lemma conserved_column_step_records:
  assumes "conserved_column_step items taxa_list selected_positions acc i = Inr acc'"
  shows "fst acc' = fst acc @
           (if int i \<notin> set selected_positions \<and>
               length (remdups (projr (aa_column_at items (int i)))) = 1
            then [projr (codon_pair_at items taxa_list (int i))] else [])"
    and "snd acc' = snd acc @
           (if int i \<notin> set selected_positions \<and>
               real (count_list (projr (aa_column_at items (int i)))
                       (hd (most_common (projr (aa_column_at items (int i)))))) /
               real (length (projr (aa_column_at items (int i)))) > 7 / 10
            then [projr (codon_pair_at items taxa_list (int i))] else [])"
proof -
  show "fst acc' = fst acc @
           (if int i \<notin> set selected_positions \<and>
               length (remdups (projr (aa_column_at items (int i)))) = 1
            then [projr (codon_pair_at items taxa_list (int i))] else [])"
  proof (cases "int i \<in> set selected_positions")
    case True
    with assms show ?thesis by (simp add: conserved_column_step_def)
  next
    case False
    with assms obtain column m ac amc where
      col: "aa_column_at items (int i) = Inr column" and
      m: "py_index (most_common column) 0 = Inr m" and
      ac: "(if length (remdups column) = 1
            then and_then (codon_pair_at items taxa_list (int i)) (\<lambda>v. Inr (fst acc @ [v]))
            else Inr (fst acc)) = Inr ac" and
      acc': "acc' = (ac, amc)"
      by (auto simp: conserved_column_step_def Let_def and_then_Inr)
    from ac acc' col False show ?thesis
      by (auto simp: and_then_Inr split: if_splits)
  qed
next
  show "snd acc' = snd acc @
           (if int i \<notin> set selected_positions \<and>
               real (count_list (projr (aa_column_at items (int i)))
                       (hd (most_common (projr (aa_column_at items (int i)))))) /
               real (length (projr (aa_column_at items (int i)))) > 7 / 10
            then [projr (codon_pair_at items taxa_list (int i))] else [])"
  proof (cases "int i \<in> set selected_positions")
    case True
    with assms show ?thesis by (simp add: conserved_column_step_def)
  next
    case False
    with assms obtain column m ac amc where
      col: "aa_column_at items (int i) = Inr column" and
      m: "py_index (most_common column) 0 = Inr m" and
      amc: "(if real (count_list column m) / real (length column) > 7 / 10
            then and_then (codon_pair_at items taxa_list (int i)) (\<lambda>v. Inr (snd acc @ [v]))
            else Inr (snd acc)) = Inr amc" and
      acc': "acc' = (ac, amc)"
      by (auto simp: conserved_column_step_def Let_def and_then_Inr)
    from py_index_head [OF m] have "m = hd (most_common column)" .
    with amc acc' col False show ?thesis
      by (auto simp: and_then_Inr split: if_splits)
  qed
qed

lemma conserved_columns_loop:
  assumes "for_each (conserved_column_step items taxa_list selected_positions) cols acc = Inr acc'"
  shows "fst acc' = fst acc @
           map (\<lambda>i. projr (codon_pair_at items taxa_list (int i)))
             (filter (\<lambda>i. int i \<notin> set selected_positions \<and>
                length (remdups (projr (aa_column_at items (int i)))) = 1) cols) \<and>
         snd acc' = snd acc @
           map (\<lambda>i. projr (codon_pair_at items taxa_list (int i)))
             (filter (\<lambda>i. int i \<notin> set selected_positions \<and>
                real (count_list (projr (aa_column_at items (int i)))
                       (hd (most_common (projr (aa_column_at items (int i)))))) /
                real (length (projr (aa_column_at items (int i)))) > 7 / 10) cols)"
  using assms
proof (induction cols arbitrary: acc)
  case Nil
  then show ?case by simp
next
  case (Cons i cols)
  from Cons.prems obtain acc1 where
    one: "conserved_column_step items taxa_list selected_positions acc i = Inr acc1" and
    more: "for_each (conserved_column_step items taxa_list selected_positions) cols acc1 = Inr acc'"
    by (auto simp: and_then_Inr)
  from Cons.IH [OF more] conserved_column_step_records [OF one]
  show ?case by simp
qed


lemma likelihood_ratio_test_defined:
  "\<exists>pv. pvalue (likelihood_ratio_test chi2_cdf p) = Some pv"
  by (simp add: likelihood_ratio_test_def Let_def split: option.splits)

lemma in_unit_complement: "in_unit y \<Longrightarrow> in_unit (float_sub (Finite 1) y)"
  by (cases y) (auto simp: in_unit_def)

lemma likelihood_ratio_test_range:
  assumes cdf: "\<forall>x\<ge>0. in_unit (chi2_cdf (Finite x))"
    and alt: "finite_or_missing (alternative_lnL p)"
    and null: "finite_or_missing (null_lnL p)"
  shows "\<exists>pv. pvalue (likelihood_ratio_test chi2_cdf p) = Some pv \<and> in_unit pv"
proof (cases "alternative_lnL p")
  case None
  then show ?thesis by (simp add: likelihood_ratio_test_def in_unit_def)
next
  case (Some a)
  with alt obtain ra where a: "a = Finite ra"
    by (cases a) (simp_all add: finite_or_missing_def)
  show ?thesis
  proof (cases "null_lnL p")
    case None
    with Some show ?thesis by (simp add: likelihood_ratio_test_def in_unit_def)
  next
    case (Some n)
    with null obtain rn where n: "n = Finite rn"
      by (cases n) (simp_all add: finite_or_missing_def)
    show ?thesis
    proof (cases "2 * (ra - rn) < 0")
      case True
      with \<open>alternative_lnL p = Some a\<close> Some a n show ?thesis
        by (simp add: likelihood_ratio_test_def in_unit_def)
    next
      case False
      then have "in_unit (chi2_cdf (Finite (2 * (ra - rn))))"
        using cdf by simp
      then have "in_unit (float_sub (Finite 1) (chi2_cdf (Finite (2 * (ra - rn)))))"
        by (rule in_unit_complement)
      with False \<open>alternative_lnL p = Some a\<close> Some a n show ?thesis
        by (simp add: likelihood_ratio_test_def Let_def)
    qed
  qed
qed

lemma keys_dict_set: "fst ` set (dict_set d k v) = insert k (fst ` set d)"
proof (induction d)
  case Nil
  then show ?case by simp
next
  case (Cons a d)
  then show ?case by (cases a; cases "fst a = k") auto
qed

lemma dict_set_fresh: "k \<notin> fst ` set d \<Longrightarrow> dict_set d k v = d @ [(k, v)]"
  by (induction d) auto

lemma distinct_dict_set:
  "distinct (map fst d) \<Longrightarrow> distinct (map fst (dict_set d k v))"
proof (induction d)
  case Nil
  then show ?case by simp
next
  case (Cons a d)
  obtain k' v' where a: "a = (k', v')" by (cases a)
  show ?case
  proof (cases "k' = k")
    case True
    with Cons.prems a show ?thesis by simp
  next
    case False
    with Cons a show ?thesis by (auto simp: keys_dict_set)
  qed
qed

lemma add_folder_distinct:
  assumes "add_folder fs py_float pset fld = Inr pset'"
    and "distinct (map fst (paml_pairs pset))"
  shows "distinct (map fst (paml_pairs pset'))"
  using assms
  by (auto simp: add_folder_def and_then_Inr distinct_dict_set split: if_splits)

lemma for_each_add_folder_distinct:
  "for_each (add_folder fs py_float) folders pset = Inr pset' \<Longrightarrow>
   distinct (map fst (paml_pairs pset)) \<Longrightarrow> distinct (map fst (paml_pairs pset'))"
proof (induction folders arbitrary: pset)
  case Nil
  then show ?case by simp
next
  case (Cons fld folders)
  from Cons.prems(1) obtain mid where
    one: "add_folder fs py_float pset fld = Inr mid" and
    more: "for_each (add_folder fs py_float) folders mid = Inr pset'"
    by (auto simp: and_then_Inr)
  from Cons.IH [OF more add_folder_distinct [OF one Cons.prems(2)]] show ?case .
qed

lemma new_paml_pair_set_distinct:
  "new_paml_pair_set fs py_float folder_list = Inr pset \<Longrightarrow>
   distinct (map fst (paml_pairs pset))"
  unfolding new_paml_pair_set_def
  by (erule for_each_add_folder_distinct) (simp add: init_pair_set_def)

lemma pvalue_dict_all:
  assumes "distinct (map fst d0 @ map fst pairs)"
    and "\<forall>gp \<in> set pairs. pvalue (snd gp) \<noteq> None"
  shows "fold (\<lambda>(gene, pair) d.
                 (case pvalue pair of None \<Rightarrow> d | Some pv \<Rightarrow> dict_set d gene pv)) pairs d0
         = d0 @ map (\<lambda>gp. (fst gp, the (pvalue (snd gp)))) pairs"
  using assms
proof (induction pairs arbitrary: d0)
  case Nil
  then show ?case by simp
next
  case (Cons gp pairs)
  obtain gene pair where gp: "gp = (gene, pair)" by (cases gp)
  from Cons.prems(2) gp obtain pv where pv: "pvalue pair = Some pv" by auto
  from Cons.prems(1) gp have fresh: "gene \<notin> fst ` set d0" by auto
  have next_distinct: "distinct (map fst (d0 @ [(gene, pv)]) @ map fst pairs)"
    using Cons.prems(1) gp by auto
  have "fold (\<lambda>(gene, pair) d.
                 (case pvalue pair of None \<Rightarrow> d | Some pv \<Rightarrow> dict_set d gene pv)) (gp # pairs) d0
        = fold (\<lambda>(gene, pair) d.
                 (case pvalue pair of None \<Rightarrow> d | Some pv \<Rightarrow> dict_set d gene pv)) pairs
            (d0 @ [(gene, pv)])"
    using gp pv fresh by (simp add: dict_set_fresh)
  also have "\<dots> = (d0 @ [(gene, pv)]) @ map (\<lambda>gp. (fst gp, the (pvalue (snd gp)))) pairs"
    using Cons.IH [OF next_distinct] Cons.prems(2) by simp
  finally show ?case using gp pv by simp
qed

lemma set_fdr_fold:
  "distinct (map fst gfs) \<Longrightarrow>
   fold (\<lambda>gf ps. set_fdr_of ps gf) gfs ps =
     map (\<lambda>gp. case map_of gfs (fst gp) of
                  None \<Rightarrow> gp
                | Some q \<Rightarrow> (fst gp, set_fdr q (snd gp))) ps"
proof (induction gfs arbitrary: ps)
  case Nil
  then show ?case by simp
next
  case (Cons gf gfs)
  obtain g q where gf: "gf = (g, q)" by (cases gf)
  from Cons.prems gf have fresh: "map_of gfs g = None" and rest: "distinct (map fst gfs)"
    by (auto simp: map_of_eq_None_iff)
  have "fold (\<lambda>gf ps. set_fdr_of ps gf) (gf # gfs) ps =
        fold (\<lambda>gf ps. set_fdr_of ps gf) gfs (set_fdr_of ps gf)"
    by simp
  also have "\<dots> = map (\<lambda>gp. case map_of gfs (fst gp) of
                  None \<Rightarrow> gp
                | Some q \<Rightarrow> (fst gp, set_fdr q (snd gp))) (set_fdr_of ps gf)"
    by (rule Cons.IH [OF rest])
  also have "\<dots> = map (\<lambda>gp. case map_of (gf # gfs) (fst gp) of
                  None \<Rightarrow> gp
                | Some q \<Rightarrow> (fst gp, set_fdr q (snd gp))) ps"
    using gf fresh by (auto simp: set_fdr_of_def split: prod.splits option.splits)
  finally show ?case .
qed

lemma fdr_correction_result:
  assumes keys: "distinct (map fst (paml_pairs pset))"
    and defined: "\<forall>gp \<in> set (paml_pairs pset). pvalue (snd gp) \<noteq> None"
    and len: "\<forall>ps qs. multipletests ps = Inr qs \<longrightarrow> length qs = length ps"
    and run: "fdr_correction multipletests pset = Inr pset'"
  shows "\<exists>qs. multipletests (map (\<lambda>gp. the (pvalue (snd gp))) (paml_pairs pset)) = Inr qs \<and>
              length qs = length (paml_pairs pset) \<and>
              length (paml_pairs pset') = length (paml_pairs pset) \<and>
              (\<forall>i < length (paml_pairs pset).
                 paml_pairs pset' ! i =
                   (fst (paml_pairs pset ! i), set_fdr (qs ! i) (snd (paml_pairs pset ! i))))"
proof -
  let ?pairs = "paml_pairs pset"
  have dict: "fold (\<lambda>(gene, pair) d.
                 (case pvalue pair of None \<Rightarrow> d | Some pv \<Rightarrow> dict_set d gene pv)) ?pairs []
              = map (\<lambda>gp. (fst gp, the (pvalue (snd gp)))) ?pairs"
    using pvalue_dict_all [of "[]" ?pairs] keys defined by simp
  have ks: "map fst (map (\<lambda>gp. (fst gp, the (pvalue (snd gp)))) ?pairs) = map fst ?pairs"
    by simp
  have vs: "map snd (map (\<lambda>gp. (fst gp, the (pvalue (snd gp)))) ?pairs) =
            map (\<lambda>gp. the (pvalue (snd gp))) ?pairs"
    by simp
  from run obtain qs where
    qs: "multipletests (map (\<lambda>gp. the (pvalue (snd gp))) ?pairs) = Inr qs" and
    out: "paml_pairs pset' =
            fold (\<lambda>gf pairs. set_fdr_of pairs gf) (zip (map fst ?pairs) qs) ?pairs"
    unfolding fdr_correction_def Let_def dict ks vs
    by (auto simp: and_then_Inr)
  from len qs have lq: "length qs = length ?pairs" by fastforce
  have dz: "distinct (map fst (zip (map fst ?pairs) qs))"
    using keys lq by simp
  have out': "paml_pairs pset' =
     map (\<lambda>gp. case map_of (zip (map fst ?pairs) qs) (fst gp) of
                  None \<Rightarrow> gp
                | Some q \<Rightarrow> (fst gp, set_fdr q (snd gp))) ?pairs"
    unfolding out by (rule set_fdr_fold [OF dz])
  have "\<forall>i < length ?pairs.
          paml_pairs pset' ! i = (fst (?pairs ! i), set_fdr (qs ! i) (snd (?pairs ! i)))"
  proof (intro allI impI)
    fix i assume i: "i < length ?pairs"
    have "map_of (zip (map fst ?pairs) qs) (map fst ?pairs ! i) = Some (qs ! i)"
      using keys lq i by (intro map_of_zip_nth) simp_all
    with i show "paml_pairs pset' ! i = (fst (?pairs ! i), set_fdr (qs ! i) (snd (?pairs ! i)))"
      by (simp add: out')
  qed
  moreover have "length (paml_pairs pset') = length ?pairs" by (simp add: out')
  ultimately show ?thesis using qs lq by blast
qed

section \<open>Properties of the likelihood-ratio test\<close>

text \<open>
  Claim C1. For every gene record, \<^verbatim>\<open>likelihood_ratio_test\<close> sets the p-value to 1.0 when
  either likelihood is \<^verbatim>\<open>None\<close>; otherwise, with the statistic twice the difference of
  the alternative and the null likelihood, it sets the p-value to 1.0 when the statistic
  is negative and to one minus the chi-square distribution function (one degree of
  freedom) at the statistic when it is not.
\<close>

theorem likelihood_ratio_test_pvalue:
  "pvalue (likelihood_ratio_test chi2_cdf p) =
     (if alternative_lnL p = None \<or> null_lnL p = None then Some (Finite 1)
      else (let statistic = float_mul (Finite 2)
                              (float_sub (the (alternative_lnL p)) (the (null_lnL p)))
            in if float_less statistic (Finite 0) then Some (Finite 1)
               else Some (float_sub (Finite 1) (chi2_cdf statistic)))) \<and>
   (alternative_lnL p = Some (Finite a) \<and> null_lnL p = Some (Finite n) \<longrightarrow>
      pvalue (likelihood_ratio_test chi2_cdf p) =
        (if 2 * (a - n) < 0 then Some (Finite 1)
         else Some (float_sub (Finite 1) (chi2_cdf (Finite (2 * (a - n)))))))"
  by (simp add: likelihood_ratio_test_def Let_def split: option.splits)

theorem likelihood_ratio_test_pvalue_witness:
  "pvalue (likelihood_ratio_test example_cdf
       ((init_pair ''g'')\<lparr>alternative_lnL := Some (Finite (-100)),
                          null_lnL := Some (Finite (-105))\<rparr>))
     = Some (Finite (1 / 11))
   \<and> pvalue (likelihood_ratio_test example_cdf
       ((init_pair ''g'')\<lparr>alternative_lnL := Some (Finite (-100)),
                          null_lnL := Some (Finite (-95))\<rparr>))
     = Some (Finite 1)
   \<and> pvalue (likelihood_ratio_test example_cdf
       ((init_pair ''g'')\<lparr>alternative_lnL := Some (Finite (-100))\<rparr>))
     = Some (Finite 1)"
  using likelihood_ratio_test_pvalue [of example_cdf
      "(init_pair ''g'')\<lparr>alternative_lnL := Some (Finite (-100)),
                         null_lnL := Some (Finite (-105))\<rparr>" "-100" "-105"]
    likelihood_ratio_test_pvalue [of example_cdf
      "(init_pair ''g'')\<lparr>alternative_lnL := Some (Finite (-100)),
                         null_lnL := Some (Finite (-95))\<rparr>" "-100" "-95"]
    likelihood_ratio_test_pvalue [of example_cdf
      "(init_pair ''g'')\<lparr>alternative_lnL := Some (Finite (-100))\<rparr>" 0 0]
  by (simp add: init_pair_def example_cdf_def)

section \<open>Properties of the site classifier\<close>

text \<open>
  Claim C2. For a gene record whose list of selected sites is empty, the classifier should
  report "not applicable" (return the string NA) and leave the counters unset. The test of
  line 402, \<^verbatim>\<open>self.selected_aa is not []\<close>, is true of every list, so the branch of line
  497 is never taken: on the example gene with no selected site the call returns
  \<^verbatim>\<open>None\<close> and every counter is set to zero.
\<close>

theorem filter_aa_empty_selection:
  "filter_aa (Some [''sp_a'', ''sp_b'']) False (example_pair\<lparr>selected_aa := Some []\<rparr>)
     = Inr (None, example_zeroed\<lparr>selected_aa := Some []\<rparr>)"
  by code_simp

text \<open>
  Claim C3. For every gene record classified with a clade, where the classification
  completes without an exception: each selected site increments exactly one of the eight
  classification counters, and after the call the eight counters add up to the number of
  selected sites (so their sum never exceeds it).
\<close>

theorem classification_counts:
  "(classify_site (Some c) flag q site = Inr q' \<longrightarrow> (\<exists>!i. incremented_at i q q')) \<and>
   (filter_aa (Some c) flag p = Inr (r, p') \<longrightarrow>
      (\<exists>sel ns. selected_aa p = Some sel \<and> counters p' = map Some ns \<and>
                sum_list ns = int (length sel)))"
proof (intro conjI impI)
  assume site: "classify_site (Some c) flag q site = Inr q'"
  from classify_site_increments [OF site] obtain i where "incremented_at i q q'" ..
  then show "\<exists>!i. incremented_at i q q'"
    by (blast intro: incremented_at_unique)
next
  assume run: "filter_aa (Some c) flag p = Inr (r, p')"
  then obtain sel where sel: "selected_aa p = Some sel"
    by (auto simp: filter_aa_def and_then_Inr split: option.splits)
  from filter_aa_sum [OF run sel] sel
  show "\<exists>sel ns. selected_aa p = Some sel \<and> counters p' = map Some ns \<and>
                  sum_list ns = int (length sel)"
    by blast
qed

theorem classification_counts_witness:
  "classify_site (Some [''sp_a'', ''sp_b'']) False example_zeroed (''2'', ''0.968*'')
     = Inr (example_zeroed\<lparr>mostly_unique := Some 1, most_common_aa := Some ''G''\<rparr>) \<and>
   (\<exists>!i. incremented_at i example_zeroed
            (example_zeroed\<lparr>mostly_unique := Some 1, most_common_aa := Some ''G''\<rparr>)) \<and>
   filter_aa (Some [''sp_a'', ''sp_b'']) False example_pair
     = Inr (None, example_zeroed\<lparr>conserved_aa := Some 1, mostly_unique := Some 1,
                    most_common_aa := Some ''G''\<rparr>) \<and>
   (\<exists>sel ns. selected_aa example_pair = Some sel \<and>
      counters (example_zeroed\<lparr>conserved_aa := Some 1, mostly_unique := Some 1,
                  most_common_aa := Some ''G''\<rparr>) = map Some ns \<and>
      sum_list ns = int (length sel))"
proof -
  have site: "classify_site (Some [''sp_a'', ''sp_b'']) False example_zeroed (''2'', ''0.968*'')
     = Inr (example_zeroed\<lparr>mostly_unique := Some 1, most_common_aa := Some ''G''\<rparr>)"
    by code_simp
  have run: "filter_aa (Some [''sp_a'', ''sp_b'']) False example_pair
     = Inr (None, example_zeroed\<lparr>conserved_aa := Some 1, mostly_unique := Some 1,
                    most_common_aa := Some ''G''\<rparr>)"
    by code_simp
  from classification_counts [where c = "[''sp_a'', ''sp_b'']" and flag = False
      and q = example_zeroed and site = "(''2'', ''0.968*'')"
      and q' = "example_zeroed\<lparr>mostly_unique := Some 1, most_common_aa := Some ''G''\<rparr>"
      and p = example_pair and r = None
      and p' = "example_zeroed\<lparr>conserved_aa := Some 1, mostly_unique := Some 1,
                    most_common_aa := Some ''G''\<rparr>"]
    site run
  show ?thesis by simp
qed

text \<open>
  Claim C4. With selected sites and no clade (\<^verbatim>\<open>clade = None\<close>) the classifier should do
  only the fully-conserved check and raise no exception. On the example gene the call
  raises: at the second site the frequency test of line 467 reads the local
  \<^verbatim>\<open>clade_specific_aa\<close>, which is bound only inside the clade block; and with the
  conserved first site alone, \<^verbatim>\<open>detect_unique_aa\<close> (line 489) evaluates \<^verbatim>\<open>sp in None\<close>.
\<close>

theorem filter_aa_without_clade_raises:
  "filter_aa None False example_pair = Inl UnboundLocalError \<and>
   filter_aa None False (example_pair\<lparr>selected_aa := Some [(''1'', ''0.991**'')]\<rparr>)
     = Inl TypeError"
  by code_simp

text \<open>
  Claim C7. A selected site classified with a clade is counted as mostly unique only if
  every amino acid of the clade occurs more often within the clade than outside it, the
  clade's amino acids at the site are all the same, and that amino acid is not among the
  most common ones of the whole column.
\<close>

theorem mostly_unique_only_if:
  assumes "classify_site (Some c) flag p site = Inr p'"
    and "mostly_unique p' \<noteq> mostly_unique p"
  shows "\<exists>n items col csa oth.
           py_int (fst site) = Inr n \<and> alignment p = Some items \<and>
           aa_column_at items (n - 1) = Inr col \<and>
           clade_aa_at items (Some c) (n - 1) = Inr csa \<and>
           other_aa_at items (Some c) (n - 1) = Inr oth \<and>
           (\<forall>x \<in> set csa. count_list oth x < count_list csa x) \<and>
           card (set csa) = 1 \<and>
           (\<forall>x \<in> set csa. x \<notin> set (most_common col))"
proof -
  from assms(1) obtain n items col where
    n: "py_int (fst site) = Inr n" and items: "alignment p = Some items" and
    col: "aa_column_at items (n - 1) = Inr col"
    by (auto simp: classify_site_def and_then_Inr Let_def split: option.splits)
  let ?q = "p\<lparr>most_common_aa := Some (most_common col)\<rparr>"
  have not_conserved: "length (remdups col) \<noteq> 1"
  proof
    assume one: "length (remdups col) = 1"
    with assms(1) n items col obtain q' where
      q': "increment conserved_aa conserved_aa_update ?q = Inr q'" and
      p': "p' = q' \<or> record_columns conserved_aa_list conserved_aa_list_update items (Some c) (n - 1) q' = Inr p'"
      by (auto simp: classify_site_def Let_def and_then_Inr split: if_splits)
    from increment_conserved [OF q'] have "mostly_unique q' = mostly_unique p" by simp
    with p' have "mostly_unique p' = mostly_unique p"
      by (auto dest: record_conserved_mostly_unique)
    with assms(2) show False by simp
  qed
  with assms(1) n items col have
    cc: "clade_classes (Some c) flag items (n - 1) col (most_common col) ?q = Inr p'"
    by (auto simp: classify_site_def Let_def)
  then obtain csa oth where
    csa: "clade_aa_at items (Some c) (n - 1) = Inr csa" and
    oth: "other_aa_at items (Some c) (n - 1) = Inr oth"
    by (auto simp: clade_classes_def and_then_Inr)
  have mu: "mostly_unique p' \<noteq> mostly_unique ?q" using assms(2) by simp
  from clade_classes_mostly_unique [OF cc csa oth mu] have
    more: "filter (\<lambda>x. count_list csa x > count_list oth x) csa \<noteq> []" and
    one: "length (remdups csa) = 1" and
    rare: "hd csa \<notin> set (most_common col)"
    by simp_all
  from one have card1: "card (set csa) = 1" by (simp add: card_set)
  then obtain a where a: "set csa = {a}" by (auto simp: card_1_singleton_iff)
  then have "csa \<noteq> []" by auto
  then have "hd csa \<in> set csa" by simp
  with a have hd: "hd csa = a" by simp
  from more obtain x where "x \<in> set csa" "count_list oth x < count_list csa x"
    by (auto simp: filter_empty_conv)
  with a have "count_list oth a < count_list csa a" by simp
  with a hd rare card1 n items col csa oth show ?thesis by auto
qed

theorem mostly_unique_only_if_witness:
  "\<exists>n items col csa oth.
     py_int (fst (''2'', ''0.968*'')) = Inr n \<and> alignment example_zeroed = Some items \<and>
     aa_column_at items (n - 1) = Inr col \<and>
     clade_aa_at items (Some [''sp_a'', ''sp_b'']) (n - 1) = Inr csa \<and>
     other_aa_at items (Some [''sp_a'', ''sp_b'']) (n - 1) = Inr oth \<and>
     (\<forall>x \<in> set csa. count_list oth x < count_list csa x) \<and>
     card (set csa) = 1 \<and>
     (\<forall>x \<in> set csa. x \<notin> set (most_common col))"
proof -
  have site: "classify_site (Some [''sp_a'', ''sp_b'']) False example_zeroed (''2'', ''0.968*'')
     = Inr (example_zeroed\<lparr>mostly_unique := Some 1, most_common_aa := Some ''G''\<rparr>)"
    by code_simp
  have changed: "mostly_unique (example_zeroed\<lparr>mostly_unique := Some 1,
                    most_common_aa := Some ''G''\<rparr>) \<noteq> mostly_unique example_zeroed"
    by (simp add: example_zeroed_def)
  from mostly_unique_only_if [OF site changed] show ?thesis .
qed


section \<open>Properties of the parser and of the set of pairs\<close>

text \<open>
  Claim C5, as the code has it. While an alignment mode is active, a scanned line that
  contains an underscore is split into a taxon identifier and codon tokens, and the
  taxon's entry in the alignment mapping is set to the codons of this line: a sequence
  stored earlier for the taxon is replaced, not extended, and the other taxa keep theirs.
\<close>

theorem taxon_line_replaces_sequence:
  assumes taxon: "CHR ''_'' \<in> set line"
    and mode: "alignment_counter st \<or> fall_back_alignment_counter st"
    and al: "alignment (self st) = Some al"
  shows "\<exists>species sequence.
           split_ws [] (strip line) = species # sequence \<and>
           populate_alignment line st =
             Inr (st\<lparr>self := (self st)\<lparr>alignment := Some (dict_set al species sequence)\<rparr>\<rparr>) \<and>
           map_of (dict_set al species sequence) species = Some sequence \<and>
           (\<forall>other. other \<noteq> species \<longrightarrow>
              map_of (dict_set al species sequence) other = map_of al other)"
proof -
  from fields_of_taxon_line [OF taxon] obtain species sequence where
    fields: "split_ws [] (strip line) = species # sequence" by blast
  let ?st = "st\<lparr>self := (self st)\<lparr>alignment := Some (dict_set al species sequence)\<rparr>\<rparr>"
  have first: "store_sequence line st = Inr ?st"
    using fields al by (rule store_sequence_fields)
  have again: "store_sequence line ?st = Inr ?st"
    using store_sequence_fields [OF fields, of ?st "dict_set al species sequence"]
    by (simp add: dict_set_twice)
  have split: "length (split_on CHR ''_'' [] line) \<noteq> 1"
    using taxon by (simp add: split_on_single)
  have "populate_alignment line st = Inr ?st"
  proof (cases "alignment_counter st")
    case True
    then show ?thesis
      using split first again by (simp add: populate_alignment_def dict_set_nonempty)
  next
    case False
    with mode have "fall_back_alignment_counter st" by simp
    with False show ?thesis
      using split first again al
      by (cases "al = []") (simp_all add: populate_alignment_def dict_set_nonempty)
  qed
  with fields show ?thesis
    by (auto simp: map_of_dict_set map_of_dict_set_other)
qed

theorem taxon_line_replaces_sequence_witness:
  "(\<exists>species sequence.
      split_ws [] (strip (''sp_a   GGG'' @ newline)) = species # sequence \<and>
      populate_alignment (''sp_a   GGG'' @ newline) example_scan =
        Inr (example_scan\<lparr>self := (self example_scan)\<lparr>alignment :=
               Some (dict_set [(''sp_a'', [''ATG'', ''AAA''])] species sequence)\<rparr>\<rparr>) \<and>
      map_of (dict_set [(''sp_a'', [''ATG'', ''AAA''])] species sequence) species = Some sequence \<and>
      (\<forall>other. other \<noteq> species \<longrightarrow>
         map_of (dict_set [(''sp_a'', [''ATG'', ''AAA''])] species sequence) other =
         map_of [(''sp_a'', [''ATG'', ''AAA''])] other)) \<and>
   populate_alignment (''sp_a   GGG'' @ newline) example_scan =
     Inr (example_scan\<lparr>self := (self example_scan)\<lparr>alignment :=
            Some [(''sp_a'', [''GGG''])]\<rparr>\<rparr>)"
proof -
  have taxon: "CHR ''_'' \<in> set (''sp_a   GGG'' @ newline)" by simp
  have mode: "alignment_counter example_scan \<or> fall_back_alignment_counter example_scan"
    by (simp add: example_scan_def)
  have al: "alignment (self example_scan) = Some [(''sp_a'', [''ATG'', ''AAA''])]"
    by (simp add: example_scan_def)
  have run: "populate_alignment (''sp_a   GGG'' @ newline) example_scan =
     Inr (example_scan\<lparr>self := (self example_scan)\<lparr>alignment :=
            Some [(''sp_a'', [''GGG''])]\<rparr>\<rparr>)"
    by code_simp
  from taxon_line_replaces_sequence [OF taxon mode al] run show ?thesis by blast
qed

text \<open>The claim as stated fails: in \<^verbatim>\<open>gene1\<close> the taxon \<^verbatim>\<open>sp_a\<close> has the lines
  \<^verbatim>\<open>ATG AAA\<close> and \<^verbatim>\<open>GGG\<close> inside the alignment section, and the parsed alignment holds
  only the last one.\<close>

theorem taxon_lines_accumulate_counterexample:
  "(case new_paml_pair example_fs example_float ''gene1'' of
      Inr p \<Rightarrow> alignment p | Inl e \<Rightarrow> None)
     = Some [(''sp_a'', [''GGG'']), (''sp_b'', [''ATG'', ''AAG''])]"
  by code_simp

text \<open>
  Claim C6, as the code has it. When the output file of a gene (of the alternative model,
  or of the null model after the alternative one was parsed) is listed in its directory
  but cannot be opened, the construction of the pair raises \<^verbatim>\<open>SystemExit\<close>, and so does
  the construction of the whole set of pairs once the earlier folders are processed: no
  later gene is processed.
\<close>

theorem unreadable_output_stops_batch:
  assumes earlier: "new_paml_pair_set fs py_float earlier = Inr pset"
    and bad: "unreadable fs g ''/Alternative'' \<or>
              ((\<exists>obj. parse_main_alternative fs py_float ''.mlc'' ''/Alternative'' (init_pair g)
                        = Inr obj) \<and> unreadable fs g ''/Null'')"
  shows "new_paml_pair fs py_float g = Inl SystemExit \<and>
         new_paml_pair_set fs py_float (earlier @ g # later) = Inl SystemExit"
proof -
  have pair: "new_paml_pair fs py_float g = Inl SystemExit"
    using bad
  proof
    assume "unreadable fs g ''/Alternative''"
    then have "unreadable fs (folder (init_pair g)) ''/Alternative''"
      by (simp add: folder_init_pair)
    from unreadable_SystemExit(1) [OF this] show ?thesis
      by (simp add: new_paml_pair_def)
  next
    assume "(\<exists>obj. parse_main_alternative fs py_float ''.mlc'' ''/Alternative'' (init_pair g)
                        = Inr obj) \<and> unreadable fs g ''/Null''"
    then obtain obj where
      alt: "parse_main_alternative fs py_float ''.mlc'' ''/Alternative'' (init_pair g) = Inr obj"
      and null: "unreadable fs g ''/Null''" by blast
    from parse_main_alternative_folder [OF alt] have "folder obj = g"
      by (simp add: folder_init_pair)
    with null have "unreadable fs (folder obj) ''/Null''" by simp
    from unreadable_SystemExit(2) [OF this] alt show ?thesis
      by (simp add: new_paml_pair_def)
  qed
  then have "add_folder fs py_float pset g = Inl SystemExit"
    by (simp add: add_folder_def)
  with earlier have "new_paml_pair_set fs py_float (earlier @ g # later) = Inl SystemExit"
    by (simp add: new_paml_pair_set_def for_each_append)
  with pair show ?thesis by simp
qed

theorem unreadable_output_stops_batch_witness:
  "new_paml_pair example_fs example_float ''gene2'' = Inl SystemExit \<and>
   new_paml_pair_set example_fs example_float ([''gene1''] @ ''gene2'' # [''gene1''])
     = Inl SystemExit"
proof -
  have "\<not> isl (new_paml_pair_set example_fs example_float [''gene1''])" by code_simp
  then obtain pset where
    earlier: "new_paml_pair_set example_fs example_float [''gene1''] = Inr pset"
    by (cases "new_paml_pair_set example_fs example_float [''gene1'']") auto
  have bad: "unreadable example_fs ''gene2'' ''/Alternative''" by code_simp
  from unreadable_output_stops_batch [OF earlier disjI1 [OF bad]] show ?thesis .
qed

text \<open>The claim as stated fails: \<^verbatim>\<open>gene1\<close> alone is parsed without an exception, but
  the batch of \<^verbatim>\<open>gene2\<close> (unreadable) and \<^verbatim>\<open>gene1\<close> ends in \<^verbatim>\<open>SystemExit\<close>.\<close>

theorem unreadable_output_counterexample:
  "unreadable example_fs ''gene2'' ''/Alternative'' \<and>
   \<not> isl (new_paml_pair example_fs example_float ''gene1'') \<and>
   \<not> isl (new_paml_pair_set example_fs example_float [''gene1'']) \<and>
   new_paml_pair_set example_fs example_float [''gene2'', ''gene1''] = Inl SystemExit"
  by code_simp

text \<open>
  Claim C9. A gene folder whose model subdirectory holds no file with the suffix should
  be marked invalid without an exception and left out of the set of pairs. The path that
  line 130 builds ends in a slash, so the test of line 133 never holds; the parser then
  tries to open the directory path, fails, and raises \<^verbatim>\<open>SystemExit\<close>, for the gene and
  for the whole batch.
\<close>

theorem missing_output_raises:
  "new_paml_pair example_fs example_float ''gene3'' = Inl SystemExit \<and>
   new_paml_pair_set example_fs example_float [''gene3'', ''gene1''] = Inl SystemExit"
  by code_simp

section \<open>Properties of the scan for conserved columns\<close>

text \<open>
  Claim C8, as the code has it. \<^verbatim>\<open>detect_conserved_aa\<close> records the pair of clade codons and
  other codons of a column in \<^verbatim>\<open>all_conserved\<close> exactly when the column is not at a
  selected position and is fully conserved, and in \<^verbatim>\<open>all_mostly_conserved\<close> exactly when
  the column is not at a selected position and the frequency of its most common amino
  acid is strictly greater than 0.70; the columns are recorded in their order.
\<close>

theorem detect_conserved_aa_records:
  assumes "detect_conserved_aa items taxa_list selected_positions = Inr (all_cons, all_mostly)"
  shows "all_cons =
           map (\<lambda>i. projr (codon_pair_at items taxa_list (int i)))
             (filter (\<lambda>i. int i \<notin> set selected_positions \<and>
                length (remdups (projr (aa_column_at items (int i)))) = 1)
                [0 ..< (if items = [] then 0 else length (snd (hd items)))]) \<and>
         all_mostly =
           map (\<lambda>i. projr (codon_pair_at items taxa_list (int i)))
             (filter (\<lambda>i. int i \<notin> set selected_positions \<and>
                real (count_list (projr (aa_column_at items (int i)))
                       (hd (most_common (projr (aa_column_at items (int i)))))) /
                real (length (projr (aa_column_at items (int i)))) > 7 / 10)
                [0 ..< (if items = [] then 0 else length (snd (hd items)))])"
proof (cases "length items > 0 \<and> length (snd (hd items)) > 0")
  case True
  with assms have
    "for_each (conserved_column_step items taxa_list selected_positions)
       [0 ..< length (snd (hd items))] ([], []) = Inr (all_cons, all_mostly)"
    by (simp add: detect_conserved_aa_def)
  from conserved_columns_loop [OF this] True show ?thesis by simp
next
  case False
  with assms have "all_cons = []" "all_mostly = []"
    by (auto simp: detect_conserved_aa_def split: if_splits)
  moreover from False have "[0 ..< (if items = [] then 0 else length (snd (hd items)))] = []"
    by auto
  ultimately show ?thesis by simp
qed

theorem detect_conserved_aa_records_witness:
  "[([''ATG'', ''ATG''],
     [''ATG'', ''ATG'', ''ATG'', ''ATG'', ''ATG'', ''ATG'', ''ATG'', ''ATG''])] =
     map (\<lambda>i. projr (codon_pair_at ten_taxa (Some [''t_0'', ''t_7'']) (int i)))
       (filter (\<lambda>i. int i \<notin> set [] \<and>
          length (remdups (projr (aa_column_at ten_taxa (int i)))) = 1)
          [0 ..< (if ten_taxa = [] then 0 else length (snd (hd ten_taxa)))]) \<and>
   [([''ATG'', ''ATG''],
     [''ATG'', ''ATG'', ''ATG'', ''ATG'', ''ATG'', ''ATG'', ''ATG'', ''ATG''])] =
     map (\<lambda>i. projr (codon_pair_at ten_taxa (Some [''t_0'', ''t_7'']) (int i)))
       (filter (\<lambda>i. int i \<notin> set [] \<and>
          real (count_list (projr (aa_column_at ten_taxa (int i)))
                 (hd (most_common (projr (aa_column_at ten_taxa (int i)))))) /
          real (length (projr (aa_column_at ten_taxa (int i)))) > 7 / 10)
          [0 ..< (if ten_taxa = [] then 0 else length (snd (hd ten_taxa)))])"
proof -
  have run: "detect_conserved_aa ten_taxa (Some [''t_0'', ''t_7'']) [] =
     Inr ([([''ATG'', ''ATG''],
            [''ATG'', ''ATG'', ''ATG'', ''ATG'', ''ATG'', ''ATG'', ''ATG'', ''ATG''])],
          [([''ATG'', ''ATG''],
            [''ATG'', ''ATG'', ''ATG'', ''ATG'', ''ATG'', ''ATG'', ''ATG'', ''ATG''])])"
    by code_simp
  from detect_conserved_aa_records [OF run] show ?thesis .
qed

text \<open>The claim as stated (at least 0.70) fails: in the first column of the ten taxa the
  most common amino acid has frequency 7/10, and the column is not recorded.\<close>

theorem mostly_conserved_threshold_counterexample:
  "aa_column_at ten_taxa 0 = Inr ''KKKKKKKGGG'' \<and>
   real (count_list ''KKKKKKKGGG'' (hd (most_common ''KKKKKKKGGG''))) /
     real (length ''KKKKKKKGGG'') \<ge> 7 / 10 \<and>
   codon_pair_at ten_taxa (Some [''t_0'', ''t_7'']) 0 =
     Inr ([''AAA'', ''GGG''],
          [''AAA'', ''AAG'', ''AAA'', ''AAA'', ''AAG'', ''AAA'', ''GGA'', ''GGC'']) \<and>
   detect_conserved_aa ten_taxa (Some [''t_0'', ''t_7'']) [] =
     Inr ([([''ATG'', ''ATG''],
            [''ATG'', ''ATG'', ''ATG'', ''ATG'', ''ATG'', ''ATG'', ''ATG'', ''ATG''])],
          [([''ATG'', ''ATG''],
            [''ATG'', ''ATG'', ''ATG'', ''ATG'', ''ATG'', ''ATG'', ''ATG'', ''ATG''])])"
  by code_simp

section \<open>Properties of the selection tests\<close>

text \<open>
  Claim C10, as the code has it. After \<^verbatim>\<open>likelihood_ratio_test\<close> the p-value of any record
  is defined, and it lies between 0 and 1 when each likelihood is missing or finite (the
  chi-square distribution function taking values between 0 and 1 on the non-negative
  reals). In a set of pairs with distinct keys, \<^verbatim>\<open>test_selection_suite\<close>, when the call of
  \<^verbatim>\<open>multipletests\<close> returns one corrected value per p-value, hands \<^verbatim>\<open>multipletests\<close> the
  p-values of all records in their order and sets the corrected value of each record to
  the value returned at its position; the p-values stay as the test set them.
\<close>

theorem pvalues_defined_and_corrected:
  assumes cdf: "\<forall>x\<ge>0. in_unit (chi2_cdf (Finite x))"
    and len: "\<forall>ps qs. multipletests ps = Inr qs \<longrightarrow> length qs = length ps"
    and keys: "distinct (map fst (paml_pairs pset))"
    and run: "test_selection_suite chi2_cdf multipletests pset = Inr pset'"
  shows "(\<exists>pv. pvalue (likelihood_ratio_test chi2_cdf p) = Some pv \<and>
               (finite_or_missing (alternative_lnL p) \<and> finite_or_missing (null_lnL p) \<longrightarrow>
                  in_unit pv)) \<and>
         (\<exists>pvs qs.
            length pvs = length (paml_pairs pset) \<and>
            multipletests pvs = Inr qs \<and>
            length qs = length (paml_pairs pset) \<and>
            length (paml_pairs pset') = length (paml_pairs pset) \<and>
            (\<forall>i < length (paml_pairs pset).
               pvalue (likelihood_ratio_test chi2_cdf (snd (paml_pairs pset ! i))) = Some (pvs ! i) \<and>
               paml_pairs pset' ! i =
                 (fst (paml_pairs pset ! i),
                  set_fdr (qs ! i) (likelihood_ratio_test chi2_cdf (snd (paml_pairs pset ! i))))))"
proof (intro conjI)
  from likelihood_ratio_test_defined obtain pv where
    pv: "pvalue (likelihood_ratio_test chi2_cdf p) = Some pv" by blast
  have "finite_or_missing (alternative_lnL p) \<and> finite_or_missing (null_lnL p) \<longrightarrow> in_unit pv"
    using likelihood_ratio_test_range [OF cdf, of p] pv by auto
  with pv show "\<exists>pv. pvalue (likelihood_ratio_test chi2_cdf p) = Some pv \<and>
               (finite_or_missing (alternative_lnL p) \<and> finite_or_missing (null_lnL p) \<longrightarrow>
                  in_unit pv)"
    by blast
next
  let ?tested = "test_selection chi2_cdf pset"
  have tested: "paml_pairs ?tested =
      map (\<lambda>gp. (fst gp, likelihood_ratio_test chi2_cdf (snd gp))) (paml_pairs pset)"
    by (simp add: test_selection_def case_prod_beta)
  have keys': "distinct (map fst (paml_pairs ?tested))"
    using keys by (simp add: tested comp_def)
  have defined: "\<forall>gp \<in> set (paml_pairs ?tested). pvalue (snd gp) \<noteq> None"
    using likelihood_ratio_test_defined [of chi2_cdf] by (auto simp: tested)
  from run have run': "fdr_correction multipletests ?tested = Inr pset'"
    by (simp add: test_selection_suite_def)
  from fdr_correction_result [OF keys' defined len run'] obtain qs where
    qs: "multipletests (map (\<lambda>gp. the (pvalue (snd gp))) (paml_pairs ?tested)) = Inr qs" and
    lq: "length qs = length (paml_pairs ?tested)" and
    lo: "length (paml_pairs pset') = length (paml_pairs ?tested)" and
    at: "\<forall>i < length (paml_pairs ?tested).
           paml_pairs pset' ! i =
             (fst (paml_pairs ?tested ! i), set_fdr (qs ! i) (snd (paml_pairs ?tested ! i)))"
    by blast
  let ?pvs = "map (\<lambda>gp. the (pvalue (snd gp))) (paml_pairs ?tested)"
  have "\<forall>i < length (paml_pairs pset).
          pvalue (likelihood_ratio_test chi2_cdf (snd (paml_pairs pset ! i))) = Some (?pvs ! i) \<and>
          paml_pairs pset' ! i =
            (fst (paml_pairs pset ! i),
             set_fdr (qs ! i) (likelihood_ratio_test chi2_cdf (snd (paml_pairs pset ! i))))"
  proof (intro allI impI)
    fix i assume i: "i < length (paml_pairs pset)"
    from likelihood_ratio_test_defined obtain v where
      "pvalue (likelihood_ratio_test chi2_cdf (snd (paml_pairs pset ! i))) = Some v" by blast
    moreover from at i have "paml_pairs pset' ! i =
            (fst (paml_pairs pset ! i),
             set_fdr (qs ! i) (likelihood_ratio_test chi2_cdf (snd (paml_pairs pset ! i))))"
      by (simp add: tested)
    ultimately show
      "pvalue (likelihood_ratio_test chi2_cdf (snd (paml_pairs pset ! i))) = Some (?pvs ! i) \<and>
       paml_pairs pset' ! i =
         (fst (paml_pairs pset ! i),
          set_fdr (qs ! i) (likelihood_ratio_test chi2_cdf (snd (paml_pairs pset ! i))))"
      using i by (simp add: tested)
  qed
  moreover have "length ?pvs = length (paml_pairs pset)" by (simp add: tested)
  moreover have "length qs = length (paml_pairs pset)" using lq by (simp add: tested)
  moreover have "length (paml_pairs pset') = length (paml_pairs pset)"
    using lo by (simp add: tested)
  ultimately show "\<exists>pvs qs.
            length pvs = length (paml_pairs pset) \<and>
            multipletests pvs = Inr qs \<and>
            length qs = length (paml_pairs pset) \<and>
            length (paml_pairs pset') = length (paml_pairs pset) \<and>
            (\<forall>i < length (paml_pairs pset).
               pvalue (likelihood_ratio_test chi2_cdf (snd (paml_pairs pset ! i))) = Some (pvs ! i) \<and>
               paml_pairs pset' ! i =
                 (fst (paml_pairs pset ! i),
                  set_fdr (qs ! i) (likelihood_ratio_test chi2_cdf (snd (paml_pairs pset ! i)))))"
    using qs by blast
qed

theorem pvalues_defined_and_corrected_witness:
  "((\<exists>pv. pvalue (likelihood_ratio_test example_cdf (init_pair ''gene4'')) = Some pv \<and>
          (finite_or_missing (alternative_lnL (init_pair ''gene4'')) \<and>
           finite_or_missing (null_lnL (init_pair ''gene4'')) \<longrightarrow> in_unit pv)) \<and>
    (\<exists>pvs qs.
       length pvs = length (paml_pairs example_pair_set) \<and>
       example_multipletests pvs = Inr qs \<and>
       length qs = length (paml_pairs example_pair_set) \<and>
       length (paml_pairs (projr (test_selection_suite example_cdf example_multipletests
                                    example_pair_set)))
         = length (paml_pairs example_pair_set) \<and>
       (\<forall>i < length (paml_pairs example_pair_set).
          pvalue (likelihood_ratio_test example_cdf (snd (paml_pairs example_pair_set ! i)))
            = Some (pvs ! i) \<and>
          paml_pairs (projr (test_selection_suite example_cdf example_multipletests
                               example_pair_set)) ! i =
            (fst (paml_pairs example_pair_set ! i),
             set_fdr (qs ! i)
               (likelihood_ratio_test example_cdf (snd (paml_pairs example_pair_set ! i))))))) \<and>
   map (\<lambda>gp. (fst gp, pvalue (snd gp), fdr_value (snd gp)))
     (paml_pairs (projr (test_selection_suite example_cdf example_multipletests
                           example_pair_set)))
     = [(''gene1'', Some (Finite (2 / 21)), Some (Finite (23 / 42))),
        (''gene4'', Some (Finite 1), Some (Finite 1))]"
proof -
  have cdf: "\<forall>x\<ge>0. in_unit (example_cdf (Finite x))"
    by (simp add: example_cdf_def in_unit_def divide_le_eq)
  have len: "\<forall>ps qs. example_multipletests ps = Inr qs \<longrightarrow> length qs = length ps"
    by (auto simp: example_multipletests_def split: if_splits)
  have keys: "distinct (map fst (paml_pairs example_pair_set))"
    by (simp add: example_pair_set_def init_pair_set_def)
  have "\<not> isl (test_selection_suite example_cdf example_multipletests example_pair_set)"
    by code_simp
  then have run: "test_selection_suite example_cdf example_multipletests example_pair_set =
      Inr (projr (test_selection_suite example_cdf example_multipletests example_pair_set))"
    by simp
  have concrete: "map (\<lambda>gp. (fst gp, pvalue (snd gp), fdr_value (snd gp)))
     (paml_pairs (projr (test_selection_suite example_cdf example_multipletests
                           example_pair_set)))
     = [(''gene1'', Some (Finite (2 / 21)), Some (Finite (23 / 42))),
        (''gene4'', Some (Finite 1), Some (Finite 1))]"
    by code_simp
  from pvalues_defined_and_corrected [OF cdf len keys run, of "init_pair ''gene4''"] concrete
  show ?thesis by (rule conjI)
qed

text \<open>The claim as stated fails for a likelihood that is not finite: the alternative output
  of \<^verbatim>\<open>gene5\<close> reports \<^verbatim>\<open>nan\<close>, the parsed likelihood is NaN, neither the test for a
  missing likelihood nor \<^verbatim>\<open>lrt < 0\<close> holds, and the p-value is NaN, which is not between
  0 and 1.\<close>

theorem nan_likelihood_counterexample:
  "(case new_paml_pair nan_fs nan_float ''gene5'' of
      Inr p \<Rightarrow> alternative_lnL p | Inl e \<Rightarrow> None) = Some NaN \<and>
   (case new_paml_pair nan_fs nan_float ''gene5'' of
      Inr p \<Rightarrow> pvalue (likelihood_ratio_test example_cdf p) | Inl e \<Rightarrow> None) = Some NaN \<and>
   \<not> in_unit NaN"
  by code_simp

end
